theory Spec2Isabelle
  imports Complex_Main "HOL-Library.Word"
begin

unbundle bit_operations_syntax

section \<open>The GSUB table decoder of opentype.js (src/tables/gsub.js)\<close>

text \<open>
  The decoder is a set of methods called on a \<open>Parser\<close> object: a byte buffer
  (\<open>data\<close>), a base \<open>offset\<close> and a cursor \<open>relativeOffset\<close> that every read
  advances. A method either returns a value (and has moved the cursor), or throws.
  A method is embedded as a function from the parser object to an outcome:
  \<^item> \<open>None\<close>: the call does not return (only the extension re-entry can do that);
  \<^item> \<open>Some (Inl e)\<close>: the call throws \<open>e\<close>;
  \<^item> \<open>Some (Inr (v, p'))\<close>: the call returns \<open>v\<close> and leaves the object as \<open>p'\<close>.
  Numbers read from the wire are unsigned and are naturals; a signed read and every
  count that the code computes by subtraction are integers.
\<close>

subsection \<open>Errors, the parser object, sequencing\<close>

datatype error =
    Error string
  | RangeError
  | TypeError

text \<open>
  \<open>Error m\<close> is \<open>throw new Error(m)\<close>, what the check module raises.
  \<open>RangeError\<close> is what the host raises for a read outside the buffer and for an
  array of negative length. \<open>TypeError\<close> is what the host raises when the code calls
  a slot of an array that holds no function.
\<close>

record parser =
  data :: "8 word list"
  offset :: nat
  relativeOffset :: nat

type_synonym 'a P = "parser \<Rightarrow> (error + 'a \<times> parser) option"

text \<open>\<open>new Parser(data, offset)\<close>: the cursor starts at 0.\<close>

definition Parser :: "8 word list \<Rightarrow> nat \<Rightarrow> parser" where
  "Parser d off = \<lparr>data = d, offset = off, relativeOffset = 0\<rparr>"

definition returnP :: "'a \<Rightarrow> 'a P" where
  "returnP v p = Some (Inr (v, p))"

definition throwP :: "error \<Rightarrow> 'a P" where
  "throwP e p = Some (Inl e)"

text \<open>One statement after another on the same object; a throw ends the sequence.\<close>

definition bindP :: "'a P \<Rightarrow> ('a \<Rightarrow> 'b P) \<Rightarrow> 'b P" where
  "bindP m k p =
     (case m p of
        None \<Rightarrow> None
      | Some (Inl e) \<Rightarrow> Some (Inl e)
      | Some (Inr (v, q)) \<Rightarrow> k v q)"

text \<open>
  \<open>f.call(q)\<close> inside a method of \<open>p\<close>: the callee runs on the other object \<open>q\<close>,
  whose final state is dropped; \<open>p\<close> is untouched.
\<close>

definition callOn :: "'a P \<Rightarrow> parser \<Rightarrow> 'a P" where
  "callOn f q p =
     (case f q of
        None \<Rightarrow> None
      | Some (Inl e) \<Rightarrow> Some (Inl e)
      | Some (Inr (v, q')) \<Rightarrow> Some (Inr (v, p)))"

subsection \<open>The check module\<close>

text \<open>
  Modelled from the spec: the module \<open>check\<close> (\<open>require('../check')\<close>) is not among
  the sources. The spec calls its effect a parse error that is fatal to the decode call:
  \<open>check.argument(predicate, message)\<close> and \<open>check.assert(predicate, message)\<close> throw
  an error carrying \<open>message\<close> when \<open>predicate\<close> is false, and do nothing otherwise.
\<close>

definition check_argument :: "bool \<Rightarrow> string \<Rightarrow> unit P" where
  "check_argument predicate message =
     (if \<not> predicate then throwP (Error message) else returnP ())"

definition check_assert :: "bool \<Rightarrow> string \<Rightarrow> unit P" where
  "check_assert predicate message = check_argument predicate message"

subsection \<open>Number.toString\<close>

definition hexDigit :: "nat \<Rightarrow> char" where
  "hexDigit d = ''0123456789abcdef'' ! d"

text \<open>\<open>n.toString(16)\<close> for a non-negative integer: lower-case, no leading zeros.\<close>

fun toString16 :: "nat \<Rightarrow> string" where
  "toString16 n = (if n < 16 then [hexDigit n] else toString16 (n div 16) @ [hexDigit (n mod 16)])"

declare toString16.simps [simp del]

text \<open>\<open>'' + n\<close> for a non-negative integer: decimal.\<close>

fun toString10 :: "nat \<Rightarrow> string" where
  "toString10 n = (if n < 10 then [hexDigit n] else toString10 (n div 10) @ [hexDigit (n mod 10)])"

declare toString10.simps [simp del]

subsection \<open>The primitive decoder\<close>

text \<open>
  Modelled from the spec: the class \<open>Parser\<close> (\<open>require('../parse').Parser\<close>) is not
  among the sources. Section 4.1 of the spec gives its contract: it "reads fixed-width
  unsigned/signed integers advancing a position". The buffer is a DataView; its reads are
  big-endian, and a read that does not fit in the buffer throws (the spec's
  TruncatedInput, "a read runs past the supplied buffer").
\<close>

definition getUint16 :: "8 word list \<Rightarrow> nat \<Rightarrow> nat option" where
  "getUint16 d i =
     (if i + 2 \<le> length d then Some (unat (d ! i) * 256 + unat (d ! (i + 1))) else None)"

definition getInt16 :: "8 word list \<Rightarrow> nat \<Rightarrow> int option" where
  "getInt16 d i =
     (case getUint16 d i of
        None \<Rightarrow> None
      | Some u \<Rightarrow> Some (if u < 32768 then int u else int u - 65536))"

definition getUint32 :: "8 word list \<Rightarrow> nat \<Rightarrow> nat option" where
  "getUint32 d i =
     (if i + 4 \<le> length d
      then Some (((unat (d ! i) * 256 + unat (d ! (i + 1))) * 256 + unat (d ! (i + 2))) * 256
                 + unat (d ! (i + 3)))
      else None)"

definition advance :: "nat \<Rightarrow> parser \<Rightarrow> parser" where
  "advance n p = p\<lparr>relativeOffset := relativeOffset p + n\<rparr>"

definition parseUShort :: "nat P" where
  "parseUShort p =
     (case getUint16 (data p) (offset p + relativeOffset p) of
        None \<Rightarrow> Some (Inl RangeError)
      | Some v \<Rightarrow> Some (Inr (v, advance 2 p)))"

definition parseShort :: "int P" where
  "parseShort p =
     (case getInt16 (data p) (offset p + relativeOffset p) of
        None \<Rightarrow> Some (Inl RangeError)
      | Some v \<Rightarrow> Some (Inr (v, advance 2 p)))"

definition parseULong :: "nat P" where
  "parseULong p =
     (case getUint32 (data p) (offset p + relativeOffset p) of
        None \<Rightarrow> Some (Inl RangeError)
      | Some v \<Rightarrow> Some (Inr (v, advance 4 p)))"

text \<open>
  Modelled from the spec: the composite read "n then n items" of section 4.1, "read a
  16-bit count, then that many items via a supplied item-decoding routine". The count is
  either passed by the caller or, when absent, read from the cursor. The items are read one
  after the other. The result is an array of that length, and the host refuses to make an
  array of negative length.
\<close>

primrec repeatP :: "nat \<Rightarrow> 'a P \<Rightarrow> 'a list P" where
  "repeatP 0 item = returnP []"
| "repeatP (Suc n) item =
     bindP item (\<lambda>x. bindP (repeatP n item) (\<lambda>xs. returnP (x # xs)))"

definition countOrRead :: "int option \<Rightarrow> int P" where
  "countOrRead count =
     (case count of
        None \<Rightarrow> bindP parseUShort (\<lambda>c. returnP (int c))
      | Some c \<Rightarrow> returnP c)"

definition parseList :: "int option \<Rightarrow> 'a P \<Rightarrow> 'a list P" where
  "parseList count itemCallback =
     bindP (countOrRead count) (\<lambda>c.
       if c < 0 then throwP RangeError else repeatP (nat c) itemCallback)"

definition parseUShortList :: "int option \<Rightarrow> nat list P" where
  "parseUShortList count = parseList count parseUShort"

definition parseOffset16List :: "nat list P" where
  "parseOffset16List = parseUShortList None"

text \<open>
  Modelled from the spec: the "fixed-width record arrays" of section 1, read as an n then n
  items read. A record description lists the fields of a record with the read of each; here
  it is the routine that reads one record.
\<close>

definition parseRecordList :: "int option \<Rightarrow> 'r P \<Rightarrow> 'r list P" where
  "parseRecordList count recordDescription = parseList count recordDescription"

text \<open>
  Modelled from the spec: pointer resolution of section 4.1, "given a sub-decoding routine,
  read a 16-bit relative offset and, if nonzero, invoke the routine at the resolved absolute
  position, returning its result (and, if the offset is zero, signal absent rather than
  invoking)"; "absolute offset = base + stored relative offset". The routine runs on a
  parser object of its own.
\<close>

definition parsePointer :: "'a P \<Rightarrow> 'a option P" where
  "parsePointer description =
     bindP parseUShort (\<lambda>structOffset p.
       if structOffset > 0
       then bindP (callOn description (Parser (data p) (offset p + structOffset)))
              (\<lambda>v. returnP (Some v)) p
       else returnP None p)"

text \<open>
  Modelled from the spec: the composite read "list of lists" of section 4.1, "read a
  16-bit count, then that many 16-bit offsets, then for each offset (resolved relative to
  the list's own start) invoke a supplied item-list decoding routine (itself an n then n
  items read), producing an array of arrays". A zero offset stands for an absent list, as
  for pointers. An outer offset is relative to the base of the parser, the structure that
  holds the list. Called without an item routine, the inner list is a count and that many
  16-bit numbers. Called with an item routine, as by the routines of types 4, 5 and 6,
  whose rule sets are tables of offsets to rules in the format that the source file links
  to, the inner read is a count and that many 16-bit offsets, relative to the inner list's
  own start, and the item routine reads one item at each. At the end the cursor is put
  back after the outer offsets.
\<close>

primrec itemsAt :: "'a P \<Rightarrow> nat \<Rightarrow> nat list \<Rightarrow> 'a list P" where
  "itemsAt itemCallback start [] = returnP []"
| "itemsAt itemCallback start (s # ss) =
     (\<lambda>p. bindP itemCallback
        (\<lambda>x. bindP (itemsAt itemCallback start ss) (\<lambda>xs. returnP (x # xs)))
        (p\<lparr>relativeOffset := start + s\<rparr>))"

definition subListAt :: "'a P \<Rightarrow> nat \<Rightarrow> 'a list P" where
  "subListAt itemCallback start =
     bindP parseOffset16List (\<lambda>subOffsets. itemsAt itemCallback start subOffsets)"

primrec listsAt :: "(nat \<Rightarrow> 'b P) \<Rightarrow> nat list \<Rightarrow> 'b option list P" where
  "listsAt sub [] = returnP []"
| "listsAt sub (start # rest) =
     (\<lambda>p. if start = 0
        then bindP (listsAt sub rest) (\<lambda>l. returnP (None # l)) p
        else bindP (sub start)
               (\<lambda>x. bindP (listsAt sub rest) (\<lambda>l. returnP (Some x # l)))
               (p\<lparr>relativeOffset := start\<rparr>))"

definition listOfListsBy :: "(nat \<Rightarrow> 'b P) \<Rightarrow> 'b option list P" where
  "listOfListsBy sub =
     bindP parseOffset16List (\<lambda>offsets p.
       bindP (listsAt sub offsets)
         (\<lambda>l q. returnP l (q\<lparr>relativeOffset := relativeOffset p\<rparr>)) p)"

text \<open>
  Modelled from the spec: \<open>parseListOfLists()\<close>, the list of lists without an item
  routine.
\<close>

definition parseListOfLists :: "nat list option list P" where
  "parseListOfLists = listOfListsBy (\<lambda>start. parseUShortList None)"

text \<open>
  Modelled from the spec: \<open>parseListOfLists(itemCallback)\<close>, the list of lists with an
  item routine.
\<close>

definition parseListOfListsOf :: "'a P \<Rightarrow> 'a list option list P" where
  "parseListOfListsOf itemCallback = listOfListsBy (subListAt itemCallback)"

subsection \<open>Shared structure decoders\<close>

datatype coverageRange = CoverageRange nat nat nat

datatype coverage =
    CoverageFormat1 "nat list"
  | CoverageFormat2 "coverageRange list"

datatype classRange = ClassRange nat nat nat

datatype classDef =
    ClassDefFormat1 nat "nat list"
  | ClassDefFormat2 "classRange list"

text \<open>
  Modelled from the spec: the coverage-set decoder of section 4.2, "reads a 16-bit format
  discriminant; format 1 reads n then n glyph ids [...]; format 2 reads n then n (start,
  end, startOrdinal) range records [...]. Unsupported format: parse error." The error
  carries the byte offset of the discriminant, as the failure contract of section 6 says.
\<close>

definition coverageRangeDesc :: "coverageRange P" where
  "coverageRangeDesc =
     bindP parseUShort (\<lambda>s. bindP parseUShort (\<lambda>e. bindP parseUShort (\<lambda>i.
       returnP (CoverageRange s e i))))"

definition parseCoverage :: "coverage P" where
  "parseCoverage p =
     (let startOffset = offset p + relativeOffset p in
      bindP parseUShort (\<lambda>format.
        if format = 1 then
          bindP (parseUShortList None) (\<lambda>glyphs. returnP (CoverageFormat1 glyphs))
        else if format = 2 then
          bindP (parseRecordList None coverageRangeDesc) (\<lambda>ranges. returnP (CoverageFormat2 ranges))
        else throwP (Error (''0x'' @ toString16 startOffset @ '': Coverage format must be 1 or 2.''))) p)"

text \<open>
  Modelled from the spec: the class-partition decoder of section 4.2, "format 1 reads a
  start glyph id and n then n class numbers [...]; format 2 reads n then n (start, end,
  class) range records. Unsupported format: parse error."
\<close>

definition classRangeDesc :: "classRange P" where
  "classRangeDesc =
     bindP parseUShort (\<lambda>s. bindP parseUShort (\<lambda>e. bindP parseUShort (\<lambda>c.
       returnP (ClassRange s e c))))"

definition parseClassDef :: "classDef P" where
  "parseClassDef p =
     (let startOffset = offset p + relativeOffset p in
      bindP parseUShort (\<lambda>format.
        if format = 1 then
          bindP parseUShort (\<lambda>startGlyph.
          bindP (parseUShortList None) (\<lambda>classes. returnP (ClassDefFormat1 startGlyph classes)))
        else if format = 2 then
          bindP (parseRecordList None classRangeDesc) (\<lambda>ranges. returnP (ClassDefFormat2 ranges))
        else throwP (Error (''0x'' @ toString16 startOffset @ '': ClassDef format must be 1 or 2.''))) p)"

subsection \<open>The decoded values\<close>

datatype lookupRecord = LookupRecord nat nat

datatype ligature = Ligature (ligGlyph: nat) (components: "nat list")

datatype rule = Rule "nat list" "lookupRecord list"

datatype classRule = ClassRule "nat list" "lookupRecord list"

datatype chainRule = ChainRule "nat list" "nat list" "nat list" "lookupRecord list"

text \<open>
  One constructor for each object literal that a subtable routine returns; the fields are
  in the order of the literal, \<open>substFormat\<close> first. An absent pointer target
  (\<open>undefined\<close>) is \<open>None\<close>. \<open>Undefined\<close> is what a routine returns when it runs past
  its last statement.
\<close>

datatype subtable =
    SingleSubst1 nat "coverage option" nat
  | SingleSubst2 nat "coverage option" "nat list"
  | MultipleSubst nat "coverage option" "nat list option list"
  | AlternateSubst nat "coverage option" "nat list option list"
  | LigatureSubst nat "coverage option" "ligature list option list"
  | ContextSubst1 nat "coverage option" "rule list option list"
  | ContextSubst2 nat "coverage option" "classDef option" "classRule list option list"
  | ContextSubst3 nat "coverage option list" "lookupRecord list"
  | ChainContextSubst1 nat "coverage option" "chainRule list option list"
  | ChainContextSubst2 nat "coverage option" "classDef option" "classDef option"
      "classDef option" "chainRule list option list"
  | ChainContextSubst3 nat "coverage option list" "coverage option list"
      "coverage option list" "lookupRecord list"
  | ExtensionSubst nat nat subtable
  | ReverseChainSingleSubst nat "coverage option" "coverage option list"
      "coverage option list" "nat list"
  | Undefined

datatype lookup = Lookup nat nat "subtable option list" "nat option"

datatype ('s, 'f) table = Table rat 's 'f "lookup option list option"

subsection \<open>The subtable routines (gsub.js, lines 11 to 188)\<close>

definition parseLookup1 :: "subtable P" where
  "parseLookup1 p =
     (let start = offset p + relativeOffset p in
      bindP parseUShort (\<lambda>substFormat.
        if substFormat = 1 then
          bindP (parsePointer parseCoverage) (\<lambda>coverage.
          bindP parseUShort (\<lambda>deltaGlyphId.
          returnP (SingleSubst1 1 coverage deltaGlyphId)))
        else if substFormat = 2 then
          bindP (parsePointer parseCoverage) (\<lambda>coverage.
          bindP parseOffset16List (\<lambda>substitute.
          returnP (SingleSubst2 2 coverage substitute)))
        else
          bindP (check_assert False
                  (''0x'' @ toString16 start @ '': lookup type 1 format must be 1 or 2.''))
            (\<lambda>_. returnP Undefined)) p)"

definition parseLookup2 :: "subtable P" where
  "parseLookup2 =
     bindP parseUShort (\<lambda>substFormat.
     bindP (check_argument (substFormat = 1)
             ''GSUB Multiple Substitution Subtable identifier-format must be 1'') (\<lambda>_.
     bindP (parsePointer parseCoverage) (\<lambda>coverage.
     bindP parseListOfLists (\<lambda>sequences.
     returnP (MultipleSubst substFormat coverage sequences)))))"

definition parseLookup3 :: "subtable P" where
  "parseLookup3 =
     bindP parseUShort (\<lambda>substFormat.
     bindP (check_argument (substFormat = 1)
             ''GSUB Alternate Substitution Subtable identifier-format must be 1'') (\<lambda>_.
     bindP (parsePointer parseCoverage) (\<lambda>coverage.
     bindP parseListOfLists (\<lambda>alternateSets.
     returnP (AlternateSubst substFormat coverage alternateSets)))))"

text \<open>The item routine of \<open>parseLookup4\<close> (lines 59 to 64).\<close>

definition parseLookup4_item :: "ligature P" where
  "parseLookup4_item =
     bindP parseUShort (\<lambda>ligGlyph.
     bindP parseUShort (\<lambda>glyphCount.
     bindP (parseUShortList (Some (int glyphCount - 1))) (\<lambda>components.
     returnP (Ligature ligGlyph components))))"

definition parseLookup4 :: "subtable P" where
  "parseLookup4 =
     bindP parseUShort (\<lambda>substFormat.
     bindP (check_argument (substFormat = 1)
             ''GSUB ligature table identifier-format must be 1'') (\<lambda>_.
     bindP (parsePointer parseCoverage) (\<lambda>coverage.
     bindP (parseListOfListsOf parseLookup4_item) (\<lambda>ligatureSets.
     returnP (LigatureSubst substFormat coverage ligatureSets)))))"

definition lookupRecordDesc :: "lookupRecord P" where
  "lookupRecordDesc =
     bindP parseUShort (\<lambda>sequenceIndex.
     bindP parseUShort (\<lambda>lookupListIndex.
     returnP (LookupRecord sequenceIndex lookupListIndex)))"

text \<open>The item routines of \<open>parseLookup5\<close>, formats 1 and 2 (lines 82 to 89, 96 to 103).\<close>

definition parseLookup5_rule :: "rule P" where
  "parseLookup5_rule =
     bindP parseUShort (\<lambda>glyphCount.
     bindP parseUShort (\<lambda>substCount.
     bindP (parseUShortList (Some (int glyphCount - 1))) (\<lambda>input.
     bindP (parseRecordList (Some (int substCount)) lookupRecordDesc) (\<lambda>lookupRecords.
     returnP (Rule input lookupRecords)))))"

definition parseLookup5_classRule :: "classRule P" where
  "parseLookup5_classRule =
     bindP parseUShort (\<lambda>glyphCount.
     bindP parseUShort (\<lambda>substCount.
     bindP (parseUShortList (Some (int glyphCount - 1))) (\<lambda>classes.
     bindP (parseRecordList (Some (int substCount)) lookupRecordDesc) (\<lambda>lookupRecords.
     returnP (ClassRule classes lookupRecords)))))"

definition parseLookup5 :: "subtable P" where
  "parseLookup5 p =
     (let start = offset p + relativeOffset p in
      bindP parseUShort (\<lambda>substFormat.
        if substFormat = 1 then
          bindP (parsePointer parseCoverage) (\<lambda>coverage.
          bindP (parseListOfListsOf parseLookup5_rule) (\<lambda>ruleSets.
          returnP (ContextSubst1 substFormat coverage ruleSets)))
        else if substFormat = 2 then
          bindP (parsePointer parseCoverage) (\<lambda>coverage.
          bindP (parsePointer parseClassDef) (\<lambda>classDef.
          bindP (parseListOfListsOf parseLookup5_classRule) (\<lambda>classSets.
          returnP (ContextSubst2 substFormat coverage classDef classSets))))
        else if substFormat = 3 then
          bindP parseUShort (\<lambda>glyphCount.
          bindP parseUShort (\<lambda>substCount.
          bindP (parseList (Some (int glyphCount)) (parsePointer parseCoverage)) (\<lambda>coverages.
          bindP (parseRecordList (Some (int substCount)) lookupRecordDesc) (\<lambda>lookupRecords.
          returnP (ContextSubst3 substFormat coverages lookupRecords)))))
        else
          bindP (check_assert False
                  (''0x'' @ toString16 start @ '': lookup type 5 format must be 1, 2 or 3.''))
            (\<lambda>_. returnP Undefined)) p)"

text \<open>The item routines of \<open>parseLookup6\<close>, formats 1 and 2 (lines 126 to 133, 142 to 149).\<close>

definition parseLookup6_chainRule :: "chainRule P" where
  "parseLookup6_chainRule =
     bindP (parseUShortList None) (\<lambda>backtrack.
     bindP parseShort (\<lambda>glyphCount.
     bindP (parseUShortList (Some (glyphCount - 1))) (\<lambda>input.
     bindP (parseUShortList None) (\<lambda>lookahead.
     bindP (parseRecordList None lookupRecordDesc) (\<lambda>lookupRecords.
     returnP (ChainRule backtrack input lookahead lookupRecords))))))"

definition parseLookup6_chainClassRule :: "chainRule P" where
  "parseLookup6_chainClassRule =
     bindP (parseUShortList None) (\<lambda>backtrack.
     bindP parseShort (\<lambda>glyphCount.
     bindP (parseUShortList (Some (glyphCount - 1))) (\<lambda>input.
     bindP (parseUShortList None) (\<lambda>lookahead.
     bindP (parseRecordList None lookupRecordDesc) (\<lambda>lookupRecords.
     returnP (ChainRule backtrack input lookahead lookupRecords))))))"

definition parseLookup6 :: "subtable P" where
  "parseLookup6 p =
     (let start = offset p + relativeOffset p in
      bindP parseUShort (\<lambda>substFormat.
        if substFormat = 1 then
          bindP (parsePointer parseCoverage) (\<lambda>coverage.
          bindP (parseListOfListsOf parseLookup6_chainRule) (\<lambda>chainRuleSets.
          returnP (ChainContextSubst1 1 coverage chainRuleSets)))
        else if substFormat = 2 then
          bindP (parsePointer parseCoverage) (\<lambda>coverage.
          bindP (parsePointer parseClassDef) (\<lambda>backtrackClassDef.
          bindP (parsePointer parseClassDef) (\<lambda>inputClassDef.
          bindP (parsePointer parseClassDef) (\<lambda>lookaheadClassDef.
          bindP (parseListOfListsOf parseLookup6_chainClassRule) (\<lambda>chainClassSet.
          returnP (ChainContextSubst2 2 coverage backtrackClassDef inputClassDef
                     lookaheadClassDef chainClassSet))))))
        else if substFormat = 3 then
          bindP (parseList None (parsePointer parseCoverage)) (\<lambda>backtrackCoverage.
          bindP (parseList None (parsePointer parseCoverage)) (\<lambda>inputCoverage.
          bindP (parseList None (parsePointer parseCoverage)) (\<lambda>lookaheadCoverage.
          bindP (parseRecordList None lookupRecordDesc) (\<lambda>lookupRecords.
          returnP (ChainContextSubst3 3 backtrackCoverage inputCoverage lookaheadCoverage
                     lookupRecords)))))
        else
          bindP (check_assert False
                  (''0x'' @ toString16 start @ '': lookup type 6 format must be 1, 2 or 3.''))
            (\<lambda>_. returnP Undefined)) p)"

definition parseLookup8 :: "subtable P" where
  "parseLookup8 =
     bindP parseUShort (\<lambda>substFormat.
     bindP (check_argument (substFormat = 1)
             ''GSUB Reverse Chaining Contextual Single Substitution Subtable identifier-format must be 1'') (\<lambda>_.
     bindP (parsePointer parseCoverage) (\<lambda>coverage.
     bindP (parseList None (parsePointer parseCoverage)) (\<lambda>backtrackCoverage.
     bindP (parseList None (parsePointer parseCoverage)) (\<lambda>lookaheadCoverage.
     bindP (parseUShortList None) (\<lambda>substitutes.
     returnP (ReverseChainSingleSubst substFormat coverage backtrackCoverage
                lookaheadCoverage substitutes)))))))"

subsection \<open>The dispatch array and the extension routine\<close>

text \<open>
  \<open>subtableParsers\<close> is \<open>new Array(9)\<close> with slots 1 to 8 assigned. Slot 0 and every
  index from 9 on hold \<open>undefined\<close>, and calling \<open>undefined\<close> throws a TypeError.
  \<open>parseLookup7\<close> looks its callee up in the array it is itself a slot of, so the
  routine is given first, with the other seven slots as \<open>otherParsers\<close>, and its
  statements are written out with their three outcomes.
\<close>

definition otherParsers :: "nat \<Rightarrow> subtable P option" where
  "otherParsers t =
     (if t = 1 then Some parseLookup1
      else if t = 2 then Some parseLookup2
      else if t = 3 then Some parseLookup3
      else if t = 4 then Some parseLookup4
      else if t = 5 then Some parseLookup5
      else if t = 6 then Some parseLookup6
      else if t = 8 then Some parseLookup8
      else None)"

definition callSlot :: "'a P option \<Rightarrow> 'a P" where
  "callSlot f = (case f of None \<Rightarrow> throwP TypeError | Some g \<Rightarrow> g)"

partial_function (option) parseLookup7 :: "parser \<Rightarrow> (error + subtable \<times> parser) option" where
  "parseLookup7 p =
     (case parseUShort p of
        None \<Rightarrow> None
      | Some (Inl e) \<Rightarrow> Some (Inl e)
      | Some (Inr (substFormat, p1)) \<Rightarrow>
     (case check_argument (substFormat = 1)
             ''GSUB Extension Substitution subtable identifier-format must be 1'' p1 of
        None \<Rightarrow> None
      | Some (Inl e) \<Rightarrow> Some (Inl e)
      | Some (Inr (u, p2)) \<Rightarrow>
     (case parseUShort p2 of
        None \<Rightarrow> None
      | Some (Inl e) \<Rightarrow> Some (Inl e)
      | Some (Inr (extensionLookupType, p3)) \<Rightarrow>
     (case parseULong p3 of
        None \<Rightarrow> None
      | Some (Inl e) \<Rightarrow> Some (Inl e)
      | Some (Inr (extensionOffset, this)) \<Rightarrow>
     (let extensionParser = Parser (data this) (offset this + extensionOffset) in
      Option.bind
        (if extensionLookupType = 7 then parseLookup7 extensionParser
         else callSlot (otherParsers extensionLookupType) extensionParser)
        (\<lambda>r. case r of
               Inl e \<Rightarrow> Some (Inl e)
             | Inr (extension, q) \<Rightarrow>
                 Some (Inr (ExtensionSubst 1 extensionLookupType extension, this))))))))"

definition subtableParsers :: "nat \<Rightarrow> subtable P option" where
  "subtableParsers t = (if t = 7 then Some parseLookup7 else otherParsers t)"

subsection \<open>The table assembler (gsub.js, lines 191 to 202)\<close>

text \<open>
  Modelled from the spec: \<open>Parser.parseLookupList\<close> is not among the sources. Section 4.4:
  "Decodes the lookup directory: reads a 16-bit count, then that many 16-bit offsets
  (relative to the lookup-directory start), and for each resolves the offset, reads the
  lookup's own lookupType field, and invokes dispatch[lookupType]"; section 7: a type
  outside 1 to 8 is the error UnknownLookupType, raised through the check module. The
  directory is itself behind a pointer of the table header. The sentence names only the
  type field of a lookup; the rest of a lookup table is as in the format that the source
  file links to: after the type a flag word, then a counted list of offsets to the
  subtables, each decoded by the routine of the lookup's type on a parser of its own, then
  a mark filtering set when bit 0x10 of the flag is set.
\<close>

definition parseLookupTable :: "(nat \<Rightarrow> subtable P option) \<Rightarrow> lookup P" where
  "parseLookupTable lookupTableParsers =
     bindP parseUShort (\<lambda>lookupType.
     bindP (check_argument (1 \<le> lookupType \<and> lookupType \<le> 8)
             (''GSUB lookup type '' @ toString10 lookupType @ '' unknown.'')) (\<lambda>_.
     bindP parseUShort (\<lambda>lookupFlag.
     bindP (parseList None (parsePointer (callSlot (lookupTableParsers lookupType)))) (\<lambda>subtables.
     bindP (if lookupFlag AND 0x10 \<noteq> 0
            then bindP parseUShort (\<lambda>m. returnP (Some m))
            else returnP None) (\<lambda>markFilteringSet.
     returnP (Lookup lookupType lookupFlag subtables markFilteringSet))))))"

definition parseLookupList :: "(nat \<Rightarrow> subtable P option) \<Rightarrow> lookup option list option P" where
  "parseLookupList lookupTableParsers =
     parsePointer (parseList None (parsePointer (parseLookupTable lookupTableParsers)))"

text \<open>
  \<open>parseGsubTable(data, start)\<close>. The routines \<open>parseVersion\<close>, \<open>parseScriptList\<close> and
  \<open>parseFeatureList\<close> of the parser are not among the sources and the spec leaves their
  formats to the host, so they are parameters. \<open>start || 0\<close> is 0 for an absent start.
\<close>

definition parseGsubTable ::
  "rat P \<Rightarrow> 's P \<Rightarrow> 'f P \<Rightarrow> 8 word list \<Rightarrow> nat option \<Rightarrow> (error + ('s, 'f) table) option" where
  "parseGsubTable parseVersion parseScriptList parseFeatureList dat start =
     (let p = Parser dat (case start of None \<Rightarrow> 0 | Some s \<Rightarrow> s) in
      case
        bindP parseVersion (\<lambda>tableVersion.
        bindP (check_argument (tableVersion = 1) ''Unsupported GSUB table version.'') (\<lambda>_.
        bindP parseScriptList (\<lambda>scripts.
        bindP parseFeatureList (\<lambda>features.
        bindP (parseLookupList subtableParsers) (\<lambda>lookups.
        returnP (Table tableVersion scripts features lookups)))))) p
      of
        None \<Rightarrow> None
      | Some (Inl e) \<Rightarrow> Some (Inl e)
      | Some (Inr (t, q)) \<Rightarrow> Some (Inr t))"

subsection \<open>The chain of extensions in a buffer\<close>

text \<open>
  An extension subtable whose format is 1 and whose extensionLookupType is 7 makes
  \<open>parseLookup7\<close> call itself on a new parser at \<open>offset + extensionOffset\<close>.
  \<open>extensionTarget p\<close> is that parser when the three reads at \<open>p\<close> give such a header,
  and \<open>None\<close> otherwise. \<open>chainEnds n p\<close>: following the chain from \<open>p\<close> reaches,
  within \<open>n\<close> steps, a place that is not such a header.
\<close>

definition extensionTarget :: "parser \<Rightarrow> parser option" where
  "extensionTarget p =
     (case parseUShort p of
        Some (Inr (substFormat, p2)) \<Rightarrow>
          if substFormat = 1 then
            (case parseUShort p2 of
               Some (Inr (extensionLookupType, p3)) \<Rightarrow>
                 if extensionLookupType = 7 then
                   (case parseULong p3 of
                      Some (Inr (extensionOffset, this)) \<Rightarrow>
                        Some (Parser (data this) (offset this + extensionOffset))
                    | _ \<Rightarrow> None)
                 else None
             | _ \<Rightarrow> None)
          else None
      | _ \<Rightarrow> None)"

primrec chainEnds :: "nat \<Rightarrow> parser \<Rightarrow> bool" where
  "chainEnds 0 p = (extensionTarget p = None)"
| "chainEnds (Suc n) p =
     (case extensionTarget p of None \<Rightarrow> True | Some q \<Rightarrow> chainEnds n q)"

text \<open>
  A routine returns on the buffer \<open>d\<close> when every call of it on a parser over \<open>d\<close> ends,
  with a value or with an error. A routine only reads when the parser it leaves is over the
  same buffer, with the same base offset, as the one it was called on: it has moved the
  cursor and nothing else.
\<close>

definition returnsOn :: "8 word list \<Rightarrow> 'a P \<Rightarrow> bool" where
  "returnsOn d f = (\<forall>p. data p = d \<longrightarrow> (\<exists>r. f p = Some r))"

definition onlyReads :: "'a P \<Rightarrow> bool" where
  "onlyReads f =
     (\<forall>p v q. f p = Some (Inr (v, q)) \<longrightarrow> data q = data p \<and> offset q = offset p)"

text \<open>
  Example buffers. A table with one lookup of type 7. Its subtable, at byte 22, is an
  extension of type 7 to the extension at byte 30, which is an extension of type 1 to the
  single substitution at byte 38. The header is a 32-bit version, 16-bit offsets to the
  script and feature directories (absent here) and the 16-bit offset of the lookup
  directory, at byte 10. Where an example decodes a whole table, the host's version routine
  is the 32-bit read divided by 65536 and its script and feature routines are the 16-bit
  read of the directory's offset.
\<close>

definition chainedTable :: "8 word list" where
  "chainedTable =
     [0, 1, 0, 0, 0, 0, 0, 0, 0, 10,
      0, 1, 0, 4,
      0, 7, 0, 0, 0, 1, 0, 8,
      0, 1, 0, 7, 0, 0, 0, 8,
      0, 1, 0, 1, 0, 0, 0, 8,
      0, 1, 0, 0, 0, 5]"

subsection \<open>Decoding the same bytes at another place\<close>

text \<open>
  Two parsers have the same view when their cursors are equal and the bytes from their base
  offsets on are the same, whatever lies before. Two outcomes agree when both are no
  return, or both are a throw, or both are the same value with parsers of the same view.
  Two routines give the same results when their outcomes agree on parsers of the same view.
\<close>

definition sameView :: "parser \<Rightarrow> parser \<Rightarrow> bool" where
  "sameView p q =
     (relativeOffset p = relativeOffset q \<and> drop (offset p) (data p) = drop (offset q) (data q))"

definition agree ::
  "(error + 'a \<times> parser) option \<Rightarrow> (error + 'a \<times> parser) option \<Rightarrow> bool" where
  "agree r s =
     (case r of
        None \<Rightarrow> s = None
      | Some (Inl e) \<Rightarrow> (\<exists>e'. s = Some (Inl e'))
      | Some (Inr (v, p')) \<Rightarrow> (\<exists>q'. s = Some (Inr (v, q')) \<and> sameView p' q'))"

definition sameResults :: "'a P \<Rightarrow> 'a P \<Rightarrow> bool" where
  "sameResults f g = (\<forall>p q. sameView p q \<longrightarrow> agree (f p) (g q))"

subsection \<open>The subtables of a decoded table\<close>

text \<open>
  \<open>decodedBy t st\<close>: the subtable value \<open>st\<close> is what the routine in slot \<open>t\<close> of the
  dispatch array returned from some call. \<open>wrappedIn st\<close> lists the subtables nested in
  the extension fields of \<open>st\<close>, outermost first, each with the type its extension names.
  \<open>subtablesOf lookups\<close> lists the subtables of the lookups of a table, each with the
  type of its lookup.
\<close>

definition decodedBy :: "nat \<Rightarrow> subtable \<Rightarrow> bool" where
  "decodedBy t st = (\<exists>q q'. callSlot (subtableParsers t) q = Some (Inr (st, q')))"

primrec wrappedIn :: "subtable \<Rightarrow> (nat \<times> subtable) list" where
  "wrappedIn (SingleSubst1 f c d) = []"
| "wrappedIn (SingleSubst2 f c s) = []"
| "wrappedIn (MultipleSubst f c s) = []"
| "wrappedIn (AlternateSubst f c s) = []"
| "wrappedIn (LigatureSubst f c s) = []"
| "wrappedIn (ContextSubst1 f c s) = []"
| "wrappedIn (ContextSubst2 f c d s) = []"
| "wrappedIn (ContextSubst3 f c r) = []"
| "wrappedIn (ChainContextSubst1 f c s) = []"
| "wrappedIn (ChainContextSubst2 f c b i l s) = []"
| "wrappedIn (ChainContextSubst3 f b i l r) = []"
| "wrappedIn (ExtensionSubst f t extension) = (t, extension) # wrappedIn extension"
| "wrappedIn (ReverseChainSingleSubst f c b l s) = []"
| "wrappedIn Undefined = []"

definition subtablesOfLookup :: "lookup option \<Rightarrow> (nat \<times> subtable) list" where
  "subtablesOfLookup l =
     (case l of
        None \<Rightarrow> []
      | Some (Lookup lookupType lookupFlag subtables markFilteringSet) \<Rightarrow>
          concat (map (\<lambda>s. case s of None \<Rightarrow> [] | Some st \<Rightarrow> [(lookupType, st)]) subtables))"

definition subtablesOf :: "lookup option list option \<Rightarrow> (nat \<times> subtable) list" where
  "subtablesOf lookups =
     (case lookups of None \<Rightarrow> [] | Some ls \<Rightarrow> concat (map subtablesOfLookup ls))"

text \<open>
  A table with one lookup of type 7 whose subtable, at byte 22, is an extension of type 7
  with extension offset 0: it names itself.
\<close>

definition cyclicTable :: "8 word list" where
  "cyclicTable =
     [0, 1, 0, 0, 0, 0, 0, 0, 0, 10,
      0, 1, 0, 4,
      0, 7, 0, 0, 0, 1, 0, 8,
      0, 1, 0, 7, 0, 0, 0, 0]"

text \<open>
  The table of \<open>chainedTable\<close> with the format of its innermost subtable, at byte 38,
  changed to 3, which type 1 does not have.
\<close>

definition brokenTable :: "8 word list" where
  "brokenTable =
     [0, 1, 0, 0, 0, 0, 0, 0, 0, 10,
      0, 1, 0, 4,
      0, 7, 0, 0, 0, 1, 0, 8,
      0, 1, 0, 7, 0, 0, 0, 8,
      0, 1, 0, 1, 0, 0, 0, 8,
      0, 3, 0, 0, 0, 5]"

declare parseLookup7.simps [code]

section \<open>Properties\<close>

subsection \<open>Sequencing\<close>

lemma bindP_returnP [simp]: "bindP (returnP v) k = k v"
  by (rule ext) (simp add: bindP_def returnP_def)

lemma bindP_throwP [simp]: "bindP (throwP e) k = throwP e"
  by (rule ext) (simp add: bindP_def throwP_def)

lemma bindP_Inr_iff:
  "bindP m k p = Some (Inr r) \<longleftrightarrow> (\<exists>x q. m p = Some (Inr (x, q)) \<and> k x q = Some (Inr r))"
  by (auto simp: bindP_def split: option.splits sum.splits)

lemma bindP_step: "m p = Some (Inr (x, q)) \<Longrightarrow> bindP m k p = k x q"
  by (simp add: bindP_def)

subsection \<open>An unsupported format discriminant\<close>

lemma parseUShort_read:
  "getUint16 (data p) (offset p + relativeOffset p) = Some v \<Longrightarrow>
     parseUShort p = Some (Inr (v, advance 2 p))"
  by (simp add: parseUShort_def)

lemma check_False: "check_assert False m = throwP (Error m)"
  by (simp add: check_assert_def check_argument_def)

lemma check_argument_fail: "\<not> b \<Longrightarrow> check_argument b m = throwP (Error m)"
  by (simp add: check_argument_def)

lemma parseLookup5_bad_format:
  assumes "getUint16 (data p) (offset p + relativeOffset p) = Some substFormat"
    and "substFormat \<noteq> 1" "substFormat \<noteq> 2" "substFormat \<noteq> 3"
  shows "parseLookup5 p = Some (Inl (Error (''0x'' @ toString16 (offset p + relativeOffset p)
           @ '': lookup type 5 format must be 1, 2 or 3.'')))"
  using assms
  by (simp add: parseLookup5_def Let_def bindP_step [OF parseUShort_read] check_False throwP_def)

lemma parseLookup6_bad_format:
  assumes "getUint16 (data p) (offset p + relativeOffset p) = Some substFormat"
    and "substFormat \<noteq> 1" "substFormat \<noteq> 2" "substFormat \<noteq> 3"
  shows "parseLookup6 p = Some (Inl (Error (''0x'' @ toString16 (offset p + relativeOffset p)
           @ '': lookup type 6 format must be 1, 2 or 3.'')))"
  using assms
  by (simp add: parseLookup6_def Let_def bindP_step [OF parseUShort_read] check_False throwP_def)

lemma parseLookup1_bad_format:
  assumes "getUint16 (data p) (offset p + relativeOffset p) = Some substFormat"
    and "substFormat \<noteq> 1" "substFormat \<noteq> 2"
  shows "parseLookup1 p = Some (Inl (Error (''0x'' @ toString16 (offset p + relativeOffset p)
           @ '': lookup type 1 format must be 1 or 2.'')))"
  using assms
  by (simp add: parseLookup1_def Let_def bindP_step [OF parseUShort_read] check_False throwP_def)

lemma parseLookup2_bad_format:
  assumes "getUint16 (data p) (offset p + relativeOffset p) = Some substFormat"
    and "substFormat \<noteq> 1"
  shows "parseLookup2 p = Some (Inl (Error
           ''GSUB Multiple Substitution Subtable identifier-format must be 1''))"
  using assms
  by (simp add: parseLookup2_def bindP_step [OF parseUShort_read] check_argument_fail throwP_def)

lemma parseLookup3_bad_format:
  assumes "getUint16 (data p) (offset p + relativeOffset p) = Some substFormat"
    and "substFormat \<noteq> 1"
  shows "parseLookup3 p = Some (Inl (Error
           ''GSUB Alternate Substitution Subtable identifier-format must be 1''))"
  using assms
  by (simp add: parseLookup3_def bindP_step [OF parseUShort_read] check_argument_fail throwP_def)

lemma parseLookup4_bad_format:
  assumes "getUint16 (data p) (offset p + relativeOffset p) = Some substFormat"
    and "substFormat \<noteq> 1"
  shows "parseLookup4 p = Some (Inl (Error
           ''GSUB ligature table identifier-format must be 1''))"
  using assms
  by (simp add: parseLookup4_def bindP_step [OF parseUShort_read] check_argument_fail throwP_def)

lemma parseLookup8_bad_format:
  assumes "getUint16 (data p) (offset p + relativeOffset p) = Some substFormat"
    and "substFormat \<noteq> 1"
  shows "parseLookup8 p = Some (Inl (Error
           ''GSUB Reverse Chaining Contextual Single Substitution Subtable identifier-format must be 1''))"
  using assms
  by (simp add: parseLookup8_def bindP_step [OF parseUShort_read] check_argument_fail throwP_def)

lemma parseLookup7_bad_format:
  assumes "getUint16 (data p) (offset p + relativeOffset p) = Some substFormat"
    and "substFormat \<noteq> 1"
  shows "parseLookup7 p = Some (Inl (Error
           ''GSUB Extension Substitution subtable identifier-format must be 1''))"
  using assms
  by (subst parseLookup7.simps) (simp add: parseUShort_read check_argument_fail throwP_def)

text \<open>
  C5. A type 5 or type 6 subtable whose format discriminant, the 16-bit number at byte
  offset \<open>offset p + relativeOffset p\<close> of the buffer, is 4 or any other value outside
  1, 2, 3 is not decoded: the routine throws, and the message of the error starts with that
  byte offset in hexadecimal. No value is returned.
\<close>

theorem unsupported_format_5_6:
  assumes "getUint16 (data p) (offset p + relativeOffset p) = Some substFormat"
    and "substFormat \<notin> {1, 2, 3}"
  shows "parseLookup5 p = Some (Inl (Error (''0x'' @ toString16 (offset p + relativeOffset p)
           @ '': lookup type 5 format must be 1, 2 or 3.'')))
       \<and> parseLookup6 p = Some (Inl (Error (''0x'' @ toString16 (offset p + relativeOffset p)
           @ '': lookup type 6 format must be 1, 2 or 3.'')))"
  using assms parseLookup5_bad_format [of p substFormat] parseLookup6_bad_format [of p substFormat]
  by simp

theorem unsupported_format_5_6_witness:
  "getUint16 (data (Parser [0, 0, 0, 0, 0, 4] 4)) (offset (Parser [0, 0, 0, 0, 0, 4] 4)
      + relativeOffset (Parser [0, 0, 0, 0, 0, 4] 4)) = Some 4
   \<and> parseLookup5 (Parser [0, 0, 0, 0, 0, 4] 4)
       = Some (Inl (Error ''0x4: lookup type 5 format must be 1, 2 or 3.''))
   \<and> parseLookup6 (Parser [0, 0, 0, 0, 0, 4] 4)
       = Some (Inl (Error ''0x4: lookup type 6 format must be 1, 2 or 3.''))"
proof -
  have h: "getUint16 (data (Parser [0, 0, 0, 0, 0, 4] 4)) (offset (Parser [0, 0, 0, 0, 0, 4] 4)
      + relativeOffset (Parser [0, 0, 0, 0, 0, 4] 4)) = Some 4"
    by (simp add: Parser_def getUint16_def)
  have t: "toString16 4 = ''4''"
    by (simp add: toString16.simps hexDigit_def)
  show ?thesis
    using unsupported_format_5_6 [OF h] h by (simp add: Parser_def t)
qed

text \<open>
  C2 (as amended). For lookup types 1, 5 and 6, when the format discriminant, the 16-bit
  number at byte offset \<open>offset p + relativeOffset p\<close>, is not a supported value, the
  routine throws an error whose message starts with that byte offset in hexadecimal and
  then names the lookup type and the accepted values. For lookup types 2, 3, 4, 7 and 8
  the routine throws an error with a fixed message that names the structure and the
  accepted value 1, and carries no offset.
\<close>

theorem format_error_offset_by_type:
  assumes "getUint16 (data p) (offset p + relativeOffset p) = Some substFormat"
  shows "(substFormat \<notin> {1, 2} \<longrightarrow>
            parseLookup1 p = Some (Inl (Error (''0x'' @ toString16 (offset p + relativeOffset p)
              @ '': lookup type 1 format must be 1 or 2.''))))
       \<and> (substFormat \<notin> {1, 2, 3} \<longrightarrow>
            parseLookup5 p = Some (Inl (Error (''0x'' @ toString16 (offset p + relativeOffset p)
              @ '': lookup type 5 format must be 1, 2 or 3.'')))
          \<and> parseLookup6 p = Some (Inl (Error (''0x'' @ toString16 (offset p + relativeOffset p)
              @ '': lookup type 6 format must be 1, 2 or 3.''))))
       \<and> (substFormat \<noteq> 1 \<longrightarrow>
            parseLookup2 p = Some (Inl (Error
              ''GSUB Multiple Substitution Subtable identifier-format must be 1''))
          \<and> parseLookup3 p = Some (Inl (Error
              ''GSUB Alternate Substitution Subtable identifier-format must be 1''))
          \<and> parseLookup4 p = Some (Inl (Error
              ''GSUB ligature table identifier-format must be 1''))
          \<and> parseLookup7 p = Some (Inl (Error
              ''GSUB Extension Substitution subtable identifier-format must be 1''))
          \<and> parseLookup8 p = Some (Inl (Error
              ''GSUB Reverse Chaining Contextual Single Substitution Subtable identifier-format must be 1'')))"
proof (intro conjI impI)
  assume "substFormat \<notin> {1, 2}"
  then show "parseLookup1 p = Some (Inl (Error (''0x'' @ toString16 (offset p + relativeOffset p)
              @ '': lookup type 1 format must be 1 or 2.'')))"
    using parseLookup1_bad_format [OF assms] by simp
next
  assume "substFormat \<notin> {1, 2, 3}"
  then show "parseLookup5 p = Some (Inl (Error (''0x'' @ toString16 (offset p + relativeOffset p)
              @ '': lookup type 5 format must be 1, 2 or 3.'')))"
    using parseLookup5_bad_format [OF assms] by simp
next
  assume "substFormat \<notin> {1, 2, 3}"
  then show "parseLookup6 p = Some (Inl (Error (''0x'' @ toString16 (offset p + relativeOffset p)
              @ '': lookup type 6 format must be 1, 2 or 3.'')))"
    using parseLookup6_bad_format [OF assms] by simp
qed (simp_all add: parseLookup2_bad_format [OF assms] parseLookup3_bad_format [OF assms]
      parseLookup4_bad_format [OF assms] parseLookup7_bad_format [OF assms]
      parseLookup8_bad_format [OF assms])

theorem format_error_offset_by_type_witness:
  "getUint16 (data (Parser [0, 0, 0, 0, 0, 9] 4)) (offset (Parser [0, 0, 0, 0, 0, 9] 4)
      + relativeOffset (Parser [0, 0, 0, 0, 0, 9] 4)) = Some 9
   \<and> parseLookup1 (Parser [0, 0, 0, 0, 0, 9] 4)
       = Some (Inl (Error ''0x4: lookup type 1 format must be 1 or 2.''))
   \<and> parseLookup5 (Parser [0, 0, 0, 0, 0, 9] 4)
       = Some (Inl (Error ''0x4: lookup type 5 format must be 1, 2 or 3.''))
   \<and> parseLookup6 (Parser [0, 0, 0, 0, 0, 9] 4)
       = Some (Inl (Error ''0x4: lookup type 6 format must be 1, 2 or 3.''))
   \<and> parseLookup2 (Parser [0, 0, 0, 0, 0, 9] 4)
       = Some (Inl (Error ''GSUB Multiple Substitution Subtable identifier-format must be 1''))
   \<and> parseLookup7 (Parser [0, 0, 0, 0, 0, 9] 4)
       = Some (Inl (Error ''GSUB Extension Substitution subtable identifier-format must be 1''))"
proof -
  have h: "getUint16 (data (Parser [0, 0, 0, 0, 0, 9] 4)) (offset (Parser [0, 0, 0, 0, 0, 9] 4)
      + relativeOffset (Parser [0, 0, 0, 0, 0, 9] 4)) = Some 9"
    by (simp add: Parser_def getUint16_def)
  have t: "toString16 4 = ''4''"
    by (simp add: toString16.simps hexDigit_def)
  show ?thesis
    using format_error_offset_by_type [OF h] h by (simp add: Parser_def t)
qed

text \<open>
  C2 as stated fails for lookup type 2: the discriminant 2 read at byte offset 0 of one
  buffer and at byte offset 4 of another gives the same error, which therefore does not
  identify the offset.
\<close>

theorem format_error_without_offset:
  "parseLookup2 (Parser [0, 2] 0)
     = Some (Inl (Error ''GSUB Multiple Substitution Subtable identifier-format must be 1''))
   \<and> parseLookup2 (Parser [0, 0, 0, 0, 0, 2] 4)
     = Some (Inl (Error ''GSUB Multiple Substitution Subtable identifier-format must be 1''))"
  by (simp add: parseLookup2_bad_format Parser_def getUint16_def)

subsection \<open>An extension that names no routine\<close>

text \<open>
  C1 at the failing inputs. An extension subtable of format 1 whose extensionLookupType is
  9, or 0, with a readable 32-bit offset: \<open>parseLookup7\<close> does not check the type; it
  calls slot 9, or slot 0, of the dispatch array, which holds no function, and what is
  thrown is the host's TypeError, not an error of the check module that names the type.
\<close>

theorem extension_unknown_type_TypeError:
  "parseLookup7 (Parser [0, 1, 0, 9, 0, 0, 0, 8] 0) = Some (Inl TypeError)
   \<and> parseLookup7 (Parser [0, 1, 0, 0, 0, 0, 0, 8] 0) = Some (Inl TypeError)"
  by code_simp

subsection \<open>The version check\<close>

text \<open>
  C7. When the version read at the start of the table is not 1, \<open>parseGsubTable\<close>
  throws the error Unsupported GSUB table version. The script directory, the feature
  directory and the lookup directory are not decoded: the outcome is the same whatever
  their decoders would do, also for decoders that throw or never return.
\<close>

theorem unsupported_version:
  assumes "parseVersion (Parser dat (case start of None \<Rightarrow> 0 | Some s \<Rightarrow> s))
             = Some (Inr (tableVersion, q))"
    and "tableVersion \<noteq> 1"
  shows "parseGsubTable parseVersion parseScriptList parseFeatureList dat start
           = Some (Inl (Error ''Unsupported GSUB table version.''))"
  using assms
  by (simp add: parseGsubTable_def bindP_step check_argument_fail throwP_def)

theorem unsupported_version_witness:
  "bindP parseULong (\<lambda>v. returnP (of_nat v / 65536)) (Parser [0, 2, 0, 0] (case None of None \<Rightarrow> 0 | Some s \<Rightarrow> s))
     = Some (Inr (2 :: rat, advance 4 (Parser [0, 2, 0, 0] 0)))
   \<and> (2 :: rat) \<noteq> 1
   \<and> parseGsubTable (bindP parseULong (\<lambda>v. returnP (of_nat v / 65536)))
        (\<lambda>p. None :: (error + unit \<times> parser) option)
        (\<lambda>p. None :: (error + unit \<times> parser) option) [0, 2, 0, 0] None
      = Some (Inl (Error ''Unsupported GSUB table version.''))"
proof -
  have h: "bindP parseULong (\<lambda>v. returnP (of_nat v / 65536))
             (Parser [0, 2, 0, 0] (case None of None \<Rightarrow> 0 | Some s \<Rightarrow> s))
           = Some (Inr (2 :: rat, advance 4 (Parser [0, 2, 0, 0] 0)))"
    by (simp add: bindP_def parseULong_def getUint32_def Parser_def returnP_def)
  have n: "(2 :: rat) \<noteq> 1" by simp
  show ?thesis
    using unsupported_version [where parseVersion = "bindP parseULong (\<lambda>v. returnP (of_nat v / 65536))"
        and dat = "[0, 2, 0, 0]" and start = None and tableVersion = 2
        and q = "advance 4 (Parser [0, 2, 0, 0] 0)"
        and parseScriptList = "\<lambda>p. None :: (error + unit \<times> parser) option"
        and parseFeatureList = "\<lambda>p. None :: (error + unit \<times> parser) option", OF h n] h
    by simp
qed

subsection \<open>Signed and unsigned reads\<close>

lemma byte_bound: "unat (b :: 8 word) < 256"
  using unsigned_less [of b, where ?'a = nat] by simp

lemma getUint16_bound: "getUint16 d i = Some v \<Longrightarrow> v \<le> 65535"
  using byte_bound [of "d ! i"] byte_bound [of "d ! (i + 1)"]
  by (auto simp: getUint16_def split: if_splits)

lemma parseShort_of_UShort:
  assumes "getUint16 (data q) (offset q + relativeOffset q) = Some v"
  shows "parseShort q = Some (Inr (if v < 32768 then int v else int v - 65536, advance 2 q))"
  using assms by (simp add: parseShort_def getInt16_def)



lemma callOn_state: "callOn f q p = Some (Inr (v, p')) \<Longrightarrow> p' = p"
  by (auto simp: callOn_def split: option.splits sum.splits)

lemma parsePointer_state:
  "parsePointer f p = Some (Inr (v, p')) \<Longrightarrow> p' = advance 2 p"
  by (auto simp: parsePointer_def bindP_def parseUShort_def returnP_def callOn_def
      split: option.splits sum.splits if_splits)

lemma parseUShort_Inr:
  "parseUShort p = Some (Inr (v, p')) \<longleftrightarrow>
     getUint16 (data p) (offset p + relativeOffset p) = Some v \<and> p' = advance 2 p"
  by (auto simp: parseUShort_def split: option.splits)

text \<open>
  C10. In a decoded type 1 format 1 subtable the field deltaGlyphId is the unsigned 16-bit
  number read at the cursor plus 4, after the format and the coverage offset: it lies
  between 0 and 65535. It is not sign-extended: where the signed reading of the same two
  bytes is \<open>D\<close>, the field holds \<open>D mod 2^16\<close>.
\<close>

theorem deltaGlyphId_unsigned:
  assumes "parseLookup1 p = Some (Inr (SingleSubst1 f coverage deltaGlyphId, p'))"
  shows "deltaGlyphId \<le> 65535
       \<and> getUint16 (data p) (offset p + relativeOffset p + 4) = Some deltaGlyphId
       \<and> (\<exists>D. getInt16 (data p) (offset p + relativeOffset p + 4) = Some D
              \<and> int deltaGlyphId = D mod 2 ^ 16)"
proof -
  from assms obtain q where
    q: "parsePointer parseCoverage (advance 2 p) = Some (Inr (coverage, q))"
    and d: "parseUShort q = Some (Inr (deltaGlyphId, p'))"
    by (auto simp: parseLookup1_def Let_def bindP_Inr_iff parseUShort_Inr returnP_def
        check_False throwP_def split: if_splits)
  have "q = advance 2 (advance 2 p)"
    by (rule parsePointer_state [OF q])
  then have "data q = data p" and "offset q + relativeOffset q = offset p + relativeOffset p + 4"
    by (simp_all add: advance_def)
  with d have g: "getUint16 (data p) (offset p + relativeOffset p + 4) = Some deltaGlyphId"
    by (simp add: parseUShort_Inr)
  have b: "deltaGlyphId \<le> 65535"
    by (rule getUint16_bound [OF g])
  have "getInt16 (data p) (offset p + relativeOffset p + 4)
          = Some (if deltaGlyphId < 32768 then int deltaGlyphId else int deltaGlyphId - 65536)"
    using g by (simp add: getInt16_def)
  moreover have "int deltaGlyphId
      = (if deltaGlyphId < 32768 then int deltaGlyphId else int deltaGlyphId - 65536) mod 2 ^ 16"
    using b by (simp add: zmod_trivial_iff)
  ultimately show ?thesis using g b by blast
qed

theorem deltaGlyphId_unsigned_witness:
  "parseLookup1 (Parser [0, 1, 0, 0, 0xFF, 0xFE] 0)
     = Some (Inr (SingleSubst1 1 None 65534, advance 6 (Parser [0, 1, 0, 0, 0xFF, 0xFE] 0)))
   \<and> (65534 :: nat) \<le> 65535
   \<and> getInt16 [0, 1, 0, 0, 0xFF, 0xFE] 4 = Some (- 2)
   \<and> int 65534 = (- 2) mod 2 ^ 16"
proof -
  have a: "parseLookup1 (Parser [0, 1, 0, 0, 0xFF, 0xFE] 0)
     = Some (Inr (SingleSubst1 1 None 65534, advance 6 (Parser [0, 1, 0, 0, 0xFF, 0xFE] 0)))"
    by (simp add: parseLookup1_def Let_def bindP_def parseUShort_def getUint16_def Parser_def
        advance_def parsePointer_def returnP_def)
  have b: "getInt16 [0, 1, 0, 0, 0xFF, 0xFE] 4 = Some (- 2)"
    by (simp add: getInt16_def getUint16_def)
  show ?thesis
    using deltaGlyphId_unsigned [OF a] a b by simp
qed

subsection \<open>Returning: the chain of extensions\<close>

lemma returnsOnI: "(\<And>p. data p = d \<Longrightarrow> \<exists>r. f p = Some r) \<Longrightarrow> returnsOn d f"
  by (simp add: returnsOn_def)

lemma returnsOnD: "returnsOn d f \<Longrightarrow> data p = d \<Longrightarrow> \<exists>r. f p = Some r"
  by (simp add: returnsOn_def)

lemma onlyReadsD:
  "onlyReads f \<Longrightarrow> f p = Some (Inr (v, q)) \<Longrightarrow> data q = data p \<and> offset q = offset p"
  by (simp add: onlyReads_def)

lemma returnsOn_returnP [simp]: "returnsOn d (returnP v)"
  by (simp add: returnsOn_def returnP_def)

lemma returnsOn_throwP [simp]: "returnsOn d (throwP e)"
  by (simp add: returnsOn_def throwP_def)

lemma onlyReads_returnP [simp]: "onlyReads (returnP v)"
  by (simp add: onlyReads_def returnP_def)

lemma onlyReads_throwP [simp]: "onlyReads (throwP e)"
  by (simp add: onlyReads_def throwP_def)

lemma returnsOn_bindP:
  assumes "returnsOn d m" and "onlyReads m" and "\<And>x. returnsOn d (k x)"
  shows "returnsOn d (bindP m k)"
proof (rule returnsOnI)
  fix p :: parser
  assume p: "data p = d"
  from returnsOnD [OF assms(1) p] obtain r where r: "m p = Some r" ..
  show "\<exists>r. bindP m k p = Some r"
  proof (cases r)
    case (Inl e)
    with r show ?thesis by (simp add: bindP_def)
  next
    case (Inr vq)
    obtain v q where vq: "vq = (v, q)" by (cases vq)
    with r Inr have m: "m p = Some (Inr (v, q))" by simp
    from onlyReadsD [OF assms(2) m] p have "data q = d" by simp
    from returnsOnD [OF assms(3) this] show ?thesis by (simp add: bindP_def m)
  qed
qed

lemma onlyReads_bindP:
  assumes "onlyReads m" and "\<And>x. onlyReads (k x)"
  shows "onlyReads (bindP m k)"
  unfolding onlyReads_def
proof (intro allI impI)
  fix p v q assume "bindP m k p = Some (Inr (v, q))"
  then obtain x p1 where m: "m p = Some (Inr (x, p1))" and k: "k x p1 = Some (Inr (v, q))"
    by (auto simp: bindP_Inr_iff)
  from onlyReadsD [OF assms(1) m] onlyReadsD [OF assms(2) k]
  show "data q = data p \<and> offset q = offset p" by simp
qed

lemma returnsOn_parseUShort [simp]: "returnsOn d parseUShort"
  by (simp add: returnsOn_def parseUShort_def split: option.splits)

lemma returnsOn_parseShort [simp]: "returnsOn d parseShort"
  by (simp add: returnsOn_def parseShort_def split: option.splits)

lemma returnsOn_parseULong [simp]: "returnsOn d parseULong"
  by (simp add: returnsOn_def parseULong_def split: option.splits)

lemma onlyReads_parseUShort [simp]: "onlyReads parseUShort"
  by (auto simp: onlyReads_def parseUShort_def advance_def split: option.splits)

lemma onlyReads_parseShort [simp]: "onlyReads parseShort"
  by (auto simp: onlyReads_def parseShort_def advance_def split: option.splits)

lemma onlyReads_parseULong [simp]: "onlyReads parseULong"
  by (auto simp: onlyReads_def parseULong_def advance_def split: option.splits)

lemma returnsOn_check_argument [simp]: "returnsOn d (check_argument b m)"
  by (simp add: check_argument_def)

lemma onlyReads_check_argument [simp]: "onlyReads (check_argument b m)"
  by (simp add: check_argument_def)

lemma returnsOn_check_assert [simp]: "returnsOn d (check_assert b m)"
  by (simp add: check_assert_def)

lemma onlyReads_check_assert [simp]: "onlyReads (check_assert b m)"
  by (simp add: check_assert_def)

lemma onlyReads_repeatP: "onlyReads item \<Longrightarrow> onlyReads (repeatP n item)"
  by (induction n) (simp_all add: onlyReads_bindP)

lemma returnsOn_repeatP: "returnsOn d item \<Longrightarrow> onlyReads item \<Longrightarrow> returnsOn d (repeatP n item)"
  by (induction n) (simp_all add: returnsOn_bindP onlyReads_bindP onlyReads_repeatP)

lemma returnsOn_countOrRead [simp]: "returnsOn d (countOrRead c)"
  by (cases c) (simp_all add: countOrRead_def returnsOn_bindP)

lemma onlyReads_countOrRead [simp]: "onlyReads (countOrRead c)"
  by (cases c) (simp_all add: countOrRead_def onlyReads_bindP)

lemma onlyReads_parseList: "onlyReads item \<Longrightarrow> onlyReads (parseList c item)"
  by (simp add: parseList_def onlyReads_bindP onlyReads_repeatP)

lemma returnsOn_parseList:
  "returnsOn d item \<Longrightarrow> onlyReads item \<Longrightarrow> returnsOn d (parseList c item)"
  by (simp add: parseList_def returnsOn_bindP returnsOn_repeatP)

lemma returnsOn_parseUShortList [simp]: "returnsOn d (parseUShortList c)"
  by (simp add: parseUShortList_def returnsOn_parseList)

lemma onlyReads_parseUShortList [simp]: "onlyReads (parseUShortList c)"
  by (simp add: parseUShortList_def onlyReads_parseList)

lemma returnsOn_parseOffset16List [simp]: "returnsOn d parseOffset16List"
  by (simp add: parseOffset16List_def)

lemma onlyReads_parseOffset16List [simp]: "onlyReads parseOffset16List"
  by (simp add: parseOffset16List_def)

lemma onlyReads_parseRecordList: "onlyReads item \<Longrightarrow> onlyReads (parseRecordList c item)"
  by (simp add: parseRecordList_def onlyReads_parseList)

lemma returnsOn_parseRecordList:
  "returnsOn d item \<Longrightarrow> onlyReads item \<Longrightarrow> returnsOn d (parseRecordList c item)"
  by (simp add: parseRecordList_def returnsOn_parseList)

lemma onlyReads_parsePointer [simp]: "onlyReads (parsePointer f)"
  by (auto simp: onlyReads_def parsePointer_def bindP_Inr_iff parseUShort_Inr returnP_def
      advance_def dest!: callOn_state split: if_splits)

lemma returnsOn_parsePointer:
  assumes "\<And>off. \<exists>r. f (Parser d off) = Some r"
  shows "returnsOn d (parsePointer f)"
proof (rule returnsOnI)
  fix p :: parser
  assume p: "data p = d"
  show "\<exists>r. parsePointer f p = Some r"
  proof (cases "parseUShort p")
    case None
    then show ?thesis by (simp add: parseUShort_def split: option.splits)
  next
    case (Some r)
    show ?thesis
    proof (cases r)
      case (Inl e)
      with Some show ?thesis by (simp add: parsePointer_def bindP_def)
    next
      case (Inr vq)
      obtain v q where vq: "vq = (v, q)" by (cases vq)
      with Some Inr have u: "parseUShort p = Some (Inr (v, q))" by simp
      then have q: "data q = d" using p by (simp add: parseUShort_Inr advance_def)
      from assms [of "offset q + v"] obtain r' where "f (Parser d (offset q + v)) = Some r'" ..
      then show ?thesis
        using q by (cases r') (auto simp: parsePointer_def u bindP_def callOn_def returnP_def)
    qed
  qed
qed

lemma returnsOn_at: "returnsOn d f \<Longrightarrow> \<exists>r. f (Parser d off) = Some r"
  by (simp add: returnsOn_def Parser_def)

lemma onlyReads_itemsAt: "onlyReads item \<Longrightarrow> onlyReads (itemsAt item start ss)"
proof (induction ss)
  case Nil
  then show ?case by simp
next
  case (Cons s ss)
  have "onlyReads (bindP item (\<lambda>x. bindP (itemsAt item start ss) (\<lambda>xs. returnP (x # xs))))"
    using Cons by (simp add: onlyReads_bindP)
  then show ?case
    by (auto simp: onlyReads_def dest!: spec)
qed

lemma returnsOn_moved:
  "returnsOn d f \<Longrightarrow> returnsOn d (\<lambda>p. f (p\<lparr>relativeOffset := r\<rparr>))"
  by (simp add: returnsOn_def)

lemma onlyReads_moved:
  "onlyReads f \<Longrightarrow> onlyReads (\<lambda>p. f (p\<lparr>relativeOffset := r\<rparr>))"
  by (auto simp: onlyReads_def dest!: spec)

lemma itemsAt_Cons:
  "itemsAt item start (s # ss) =
     (\<lambda>p. bindP item (\<lambda>x. bindP (itemsAt item start ss) (\<lambda>xs. returnP (x # xs)))
        (p\<lparr>relativeOffset := start + s\<rparr>))"
  by simp

lemma returnsOn_itemsAt:
  "returnsOn d item \<Longrightarrow> onlyReads item \<Longrightarrow> returnsOn d (itemsAt item start ss)"
proof (induction ss)
  case Nil
  then show ?case by simp
next
  case (Cons s ss)
  have "returnsOn d (bindP item (\<lambda>x. bindP (itemsAt item start ss) (\<lambda>xs. returnP (x # xs))))"
    using Cons by (simp add: returnsOn_bindP onlyReads_itemsAt)
  then show ?case
    unfolding itemsAt_Cons by (rule returnsOn_moved)
qed

lemma returnsOn_subListAt:
  "returnsOn d item \<Longrightarrow> onlyReads item \<Longrightarrow> returnsOn d (subListAt item start)"
  by (simp add: subListAt_def returnsOn_bindP returnsOn_itemsAt)

lemma onlyReads_subListAt:
  "onlyReads item \<Longrightarrow> onlyReads (subListAt item start)"
  by (simp add: subListAt_def onlyReads_bindP onlyReads_itemsAt)

lemma listsAt_Cons:
  "listsAt sub (start # rest) =
     (if start = 0
      then bindP (listsAt sub rest) (\<lambda>l. returnP (None # l))
      else (\<lambda>p. bindP (sub start)
               (\<lambda>x. bindP (listsAt sub rest) (\<lambda>l. returnP (Some x # l)))
               (p\<lparr>relativeOffset := start\<rparr>)))"
  by (rule ext) simp

lemma onlyReads_listsAt:
  "(\<And>start. onlyReads (sub start)) \<Longrightarrow> onlyReads (listsAt sub offsets)"
proof (induction offsets)
  case Nil
  then show ?case by simp
next
  case (Cons start rest)
  show ?case
    unfolding listsAt_Cons using Cons
    by (auto intro!: onlyReads_moved onlyReads_bindP)
qed

lemma returnsOn_listsAt:
  "(\<And>start. returnsOn d (sub start)) \<Longrightarrow> (\<And>start. onlyReads (sub start)) \<Longrightarrow>
     returnsOn d (listsAt sub offsets)"
proof (induction offsets)
  case Nil
  then show ?case by simp
next
  case (Cons start rest)
  show ?case
    unfolding listsAt_Cons using Cons
    by (auto intro!: returnsOn_moved returnsOn_bindP onlyReads_bindP onlyReads_listsAt)
qed

lemma returnsOn_listOfListsBy:
  assumes "\<And>start. returnsOn d (sub start)" and "\<And>start. onlyReads (sub start)"
  shows "returnsOn d (listOfListsBy sub)"
proof -
  have k: "returnsOn d (\<lambda>p. bindP (listsAt sub offsets)
         (\<lambda>l q. returnP l (q\<lparr>relativeOffset := relativeOffset p\<rparr>)) p)" for offsets
  proof (rule returnsOnI)
    fix p :: parser
    assume p: "data p = d"
    have "returnsOn d (bindP (listsAt sub offsets)
         (\<lambda>l q. returnP l (q\<lparr>relativeOffset := relativeOffset p\<rparr>)))"
      by (intro returnsOn_bindP returnsOn_listsAt onlyReads_listsAt assms)
        (simp add: returnsOn_def returnP_def)
    from returnsOnD [OF this p]
    show "\<exists>r. bindP (listsAt sub offsets)
         (\<lambda>l q. returnP l (q\<lparr>relativeOffset := relativeOffset p\<rparr>)) p = Some r" .
  qed
  show ?thesis
    unfolding listOfListsBy_def
    by (intro returnsOn_bindP k) simp_all
qed

lemma onlyReads_listOfListsBy:
  assumes "\<And>start. onlyReads (sub start)"
  shows "onlyReads (listOfListsBy sub)"
proof -
  have k: "onlyReads (\<lambda>p. bindP (listsAt sub offsets)
         (\<lambda>l q. returnP l (q\<lparr>relativeOffset := relativeOffset p\<rparr>)) p)" for offsets
    unfolding onlyReads_def
  proof (intro allI impI)
    fix p v q
    assume "bindP (listsAt sub offsets)
         (\<lambda>l q. returnP l (q\<lparr>relativeOffset := relativeOffset p\<rparr>)) p = Some (Inr (v, q))"
    then obtain q' where "listsAt sub offsets p = Some (Inr (v, q'))"
      and "q = q'\<lparr>relativeOffset := relativeOffset p\<rparr>"
      by (auto simp: bindP_Inr_iff returnP_def)
    with onlyReadsD [OF onlyReads_listsAt, of sub offsets p v q'] assms
    show "data q = data p \<and> offset q = offset p" by simp
  qed
  show ?thesis
    unfolding listOfListsBy_def
    by (intro onlyReads_bindP k) simp
qed

lemma returnsOn_parseListOfLists [simp]: "returnsOn d parseListOfLists"
  by (simp add: parseListOfLists_def returnsOn_listOfListsBy)

lemma onlyReads_parseListOfLists [simp]: "onlyReads parseListOfLists"
  by (simp add: parseListOfLists_def onlyReads_listOfListsBy)

lemma returnsOn_parseListOfListsOf:
  "returnsOn d item \<Longrightarrow> onlyReads item \<Longrightarrow> returnsOn d (parseListOfListsOf item)"
  by (simp add: parseListOfListsOf_def returnsOn_listOfListsBy returnsOn_subListAt
      onlyReads_subListAt)

lemma onlyReads_parseListOfListsOf:
  "onlyReads item \<Longrightarrow> onlyReads (parseListOfListsOf item)"
  by (simp add: parseListOfListsOf_def onlyReads_listOfListsBy onlyReads_subListAt)

lemmas returns_intros =
  returnsOn_bindP onlyReads_bindP returnsOn_parseList onlyReads_parseList
  returnsOn_parseRecordList onlyReads_parseRecordList returnsOn_parseListOfListsOf
  onlyReads_parseListOfListsOf returnsOn_parsePointer returnsOn_at

lemma returnsOn_coverageRangeDesc [simp]: "returnsOn d coverageRangeDesc"
  unfolding coverageRangeDesc_def by (intro returns_intros) simp_all

lemma onlyReads_coverageRangeDesc [simp]: "onlyReads coverageRangeDesc"
  unfolding coverageRangeDesc_def by (intro returns_intros) simp_all

lemma returnsOn_classRangeDesc [simp]: "returnsOn d classRangeDesc"
  unfolding classRangeDesc_def by (intro returns_intros) simp_all

lemma onlyReads_classRangeDesc [simp]: "onlyReads classRangeDesc"
  unfolding classRangeDesc_def by (intro returns_intros) simp_all

lemma returnsOn_lookupRecordDesc [simp]: "returnsOn d lookupRecordDesc"
  unfolding lookupRecordDesc_def by (intro returns_intros) simp_all

lemma onlyReads_lookupRecordDesc [simp]: "onlyReads lookupRecordDesc"
  unfolding lookupRecordDesc_def by (intro returns_intros) simp_all

lemma returnsOn_parseCoverage [simp]: "returnsOn d parseCoverage"
proof (rule returnsOnI)
  fix p :: parser
  assume p: "data p = d"
  have "returnsOn d (bindP parseUShort (\<lambda>format.
        if format = 1 then
          bindP (parseUShortList None) (\<lambda>glyphs. returnP (CoverageFormat1 glyphs))
        else if format = 2 then
          bindP (parseRecordList None coverageRangeDesc) (\<lambda>ranges. returnP (CoverageFormat2 ranges))
        else throwP (Error (''0x'' @ toString16 s @ '': Coverage format must be 1 or 2.''))))" for s
    by (intro returns_intros) (auto intro!: returns_intros)
  from returnsOnD [OF this p] show "\<exists>r. parseCoverage p = Some r"
    by (simp add: parseCoverage_def Let_def)
qed

lemma returnsOn_parseClassDef [simp]: "returnsOn d parseClassDef"
proof (rule returnsOnI)
  fix p :: parser
  assume p: "data p = d"
  have "returnsOn d (bindP parseUShort (\<lambda>format.
        if format = 1 then
          bindP parseUShort (\<lambda>startGlyph.
          bindP (parseUShortList None) (\<lambda>classes. returnP (ClassDefFormat1 startGlyph classes)))
        else if format = 2 then
          bindP (parseRecordList None classRangeDesc) (\<lambda>ranges. returnP (ClassDefFormat2 ranges))
        else throwP (Error (''0x'' @ toString16 s @ '': ClassDef format must be 1 or 2.''))))" for s
    by (intro returns_intros) (auto intro!: returns_intros)
  from returnsOnD [OF this p] show "\<exists>r. parseClassDef p = Some r"
    by (simp add: parseClassDef_def Let_def)
qed

lemma returnsOn_parseLookup4_item [simp]: "returnsOn d parseLookup4_item"
  unfolding parseLookup4_item_def by (intro returns_intros) simp_all

lemma onlyReads_parseLookup4_item [simp]: "onlyReads parseLookup4_item"
  unfolding parseLookup4_item_def by (intro returns_intros) simp_all

lemma returnsOn_parseLookup5_rule [simp]: "returnsOn d parseLookup5_rule"
  unfolding parseLookup5_rule_def by (intro returns_intros) simp_all

lemma onlyReads_parseLookup5_rule [simp]: "onlyReads parseLookup5_rule"
  unfolding parseLookup5_rule_def by (intro returns_intros) simp_all

lemma returnsOn_parseLookup5_classRule [simp]: "returnsOn d parseLookup5_classRule"
  unfolding parseLookup5_classRule_def by (intro returns_intros) simp_all

lemma onlyReads_parseLookup5_classRule [simp]: "onlyReads parseLookup5_classRule"
  unfolding parseLookup5_classRule_def by (intro returns_intros) simp_all

lemma returnsOn_parseLookup6_chainRule [simp]: "returnsOn d parseLookup6_chainRule"
  unfolding parseLookup6_chainRule_def by (intro returns_intros) simp_all

lemma onlyReads_parseLookup6_chainRule [simp]: "onlyReads parseLookup6_chainRule"
  unfolding parseLookup6_chainRule_def by (intro returns_intros) simp_all

lemma returnsOn_parseLookup6_chainClassRule [simp]: "returnsOn d parseLookup6_chainClassRule"
  unfolding parseLookup6_chainClassRule_def by (intro returns_intros) simp_all

lemma onlyReads_parseLookup6_chainClassRule [simp]: "onlyReads parseLookup6_chainClassRule"
  unfolding parseLookup6_chainClassRule_def by (intro returns_intros) simp_all

lemma returnsOn_pointer_coverage [simp]: "returnsOn d (parsePointer parseCoverage)"
  by (intro returns_intros) simp

lemma returnsOn_pointer_classDef [simp]: "returnsOn d (parsePointer parseClassDef)"
  by (intro returns_intros) simp

lemma returnsOn_parseLookup1 [simp]: "returnsOn d parseLookup1"
proof (rule returnsOnI)
  fix p :: parser
  assume p: "data p = d"
  have "returnsOn d (bindP parseUShort (\<lambda>substFormat.
        if substFormat = 1 then
          bindP (parsePointer parseCoverage) (\<lambda>coverage.
          bindP parseUShort (\<lambda>deltaGlyphId.
          returnP (SingleSubst1 1 coverage deltaGlyphId)))
        else if substFormat = 2 then
          bindP (parsePointer parseCoverage) (\<lambda>coverage.
          bindP parseOffset16List (\<lambda>substitute.
          returnP (SingleSubst2 2 coverage substitute)))
        else
          bindP (check_assert False
                  (''0x'' @ toString16 s @ '': lookup type 1 format must be 1 or 2.''))
            (\<lambda>_. returnP Undefined)))" for s
    by (intro returns_intros) (auto intro!: returns_intros)
  from returnsOnD [OF this p] show "\<exists>r. parseLookup1 p = Some r"
    by (simp add: parseLookup1_def Let_def)
qed

lemma returnsOn_parseLookup2 [simp]: "returnsOn d parseLookup2"
  unfolding parseLookup2_def by (intro returns_intros) simp_all

lemma returnsOn_parseLookup3 [simp]: "returnsOn d parseLookup3"
  unfolding parseLookup3_def by (intro returns_intros) simp_all

lemma returnsOn_parseLookup4 [simp]: "returnsOn d parseLookup4"
  unfolding parseLookup4_def by (intro returns_intros) simp_all

lemma returnsOn_parseLookup5 [simp]: "returnsOn d parseLookup5"
proof (rule returnsOnI)
  fix p :: parser
  assume p: "data p = d"
  have "returnsOn d (bindP parseUShort (\<lambda>substFormat.
        if substFormat = 1 then
          bindP (parsePointer parseCoverage) (\<lambda>coverage.
          bindP (parseListOfListsOf parseLookup5_rule) (\<lambda>ruleSets.
          returnP (ContextSubst1 substFormat coverage ruleSets)))
        else if substFormat = 2 then
          bindP (parsePointer parseCoverage) (\<lambda>coverage.
          bindP (parsePointer parseClassDef) (\<lambda>classDef.
          bindP (parseListOfListsOf parseLookup5_classRule) (\<lambda>classSets.
          returnP (ContextSubst2 substFormat coverage classDef classSets))))
        else if substFormat = 3 then
          bindP parseUShort (\<lambda>glyphCount.
          bindP parseUShort (\<lambda>substCount.
          bindP (parseList (Some (int glyphCount)) (parsePointer parseCoverage)) (\<lambda>coverages.
          bindP (parseRecordList (Some (int substCount)) lookupRecordDesc) (\<lambda>lookupRecords.
          returnP (ContextSubst3 substFormat coverages lookupRecords)))))
        else
          bindP (check_assert False
                  (''0x'' @ toString16 s @ '': lookup type 5 format must be 1, 2 or 3.''))
            (\<lambda>_. returnP Undefined)))" for s
    by (intro returns_intros) (auto intro!: returns_intros)
  from returnsOnD [OF this p] show "\<exists>r. parseLookup5 p = Some r"
    by (simp add: parseLookup5_def Let_def)
qed

lemma returnsOn_parseLookup6 [simp]: "returnsOn d parseLookup6"
proof (rule returnsOnI)
  fix p :: parser
  assume p: "data p = d"
  have "returnsOn d (bindP parseUShort (\<lambda>substFormat.
        if substFormat = 1 then
          bindP (parsePointer parseCoverage) (\<lambda>coverage.
          bindP (parseListOfListsOf parseLookup6_chainRule) (\<lambda>chainRuleSets.
          returnP (ChainContextSubst1 1 coverage chainRuleSets)))
        else if substFormat = 2 then
          bindP (parsePointer parseCoverage) (\<lambda>coverage.
          bindP (parsePointer parseClassDef) (\<lambda>backtrackClassDef.
          bindP (parsePointer parseClassDef) (\<lambda>inputClassDef.
          bindP (parsePointer parseClassDef) (\<lambda>lookaheadClassDef.
          bindP (parseListOfListsOf parseLookup6_chainClassRule) (\<lambda>chainClassSet.
          returnP (ChainContextSubst2 2 coverage backtrackClassDef inputClassDef
                     lookaheadClassDef chainClassSet))))))
        else if substFormat = 3 then
          bindP (parseList None (parsePointer parseCoverage)) (\<lambda>backtrackCoverage.
          bindP (parseList None (parsePointer parseCoverage)) (\<lambda>inputCoverage.
          bindP (parseList None (parsePointer parseCoverage)) (\<lambda>lookaheadCoverage.
          bindP (parseRecordList None lookupRecordDesc) (\<lambda>lookupRecords.
          returnP (ChainContextSubst3 3 backtrackCoverage inputCoverage lookaheadCoverage
                     lookupRecords)))))
        else
          bindP (check_assert False
                  (''0x'' @ toString16 s @ '': lookup type 6 format must be 1, 2 or 3.''))
            (\<lambda>_. returnP Undefined)))" for s
    by (intro returns_intros) (auto intro!: returns_intros)
  from returnsOnD [OF this p] show "\<exists>r. parseLookup6 p = Some r"
    by (simp add: parseLookup6_def Let_def)
qed

lemma returnsOn_parseLookup8 [simp]: "returnsOn d parseLookup8"
  unfolding parseLookup8_def by (intro returns_intros) simp_all

lemma returnsOn_otherParsers [simp]: "returnsOn d (callSlot (otherParsers t))"
  by (simp add: otherParsers_def callSlot_def)

lemma parseUShort_total: "\<exists>r. parseUShort p = Some r"
  by (simp add: parseUShort_def split: option.splits)

lemma parseULong_total: "\<exists>r. parseULong p = Some r"
  by (simp add: parseULong_def split: option.splits)

text \<open>The extension routine in the style of the other routines.\<close>

lemma parseLookup7_unfold:
  "parseLookup7 p =
     bindP parseUShort (\<lambda>substFormat.
     bindP (check_argument (substFormat = 1)
             ''GSUB Extension Substitution subtable identifier-format must be 1'') (\<lambda>_.
     bindP parseUShort (\<lambda>extensionLookupType.
     bindP parseULong (\<lambda>extensionOffset this.
       bindP (callOn (callSlot (subtableParsers extensionLookupType))
                (Parser (data this) (offset this + extensionOffset)))
         (\<lambda>extension. returnP (ExtensionSubst 1 extensionLookupType extension)) this)))) p"
  by (subst parseLookup7.simps)
    (auto simp: bindP_def callOn_def subtableParsers_def callSlot_def returnP_def Let_def
      split: option.splits sum.splits prod.splits)

text \<open>
  Either the header of the extension makes the routine throw, or the routine calls the
  slot named by the header on the parser at the extension offset.
\<close>

lemma parseLookup7_cases:
  obtains (throws) e where "parseLookup7 p = Some (Inl e)" and "extensionTarget p = None"
  | (calls) p2 t p3 u this where
      "parseUShort p = Some (Inr (1, p2))" and "parseUShort p2 = Some (Inr (t, p3))"
      and "parseULong p3 = Some (Inr (u, this))"
      and "parseLookup7 p =
             bindP (callOn (callSlot (subtableParsers t)) (Parser (data this) (offset this + u)))
               (\<lambda>extension. returnP (ExtensionSubst 1 t extension)) this"
      and "extensionTarget p = (if t = 7 then Some (Parser (data this) (offset this + u)) else None)"
proof -
  obtain r1 where r1: "parseUShort p = Some r1" using parseUShort_total by blast
  show thesis
  proof (cases r1)
    case (Inl e)
    with r1 show thesis
      by (intro throws [of e]) (simp_all add: parseLookup7_unfold bindP_def extensionTarget_def)
  next
    case (Inr a)
    obtain f p2 where a: "a = (f, p2)" by (cases a)
    with r1 Inr have h1: "parseUShort p = Some (Inr (f, p2))" by simp
    show thesis
    proof (cases "f = 1")
      case False
      then show thesis
        by (intro throws [of "Error ''GSUB Extension Substitution subtable identifier-format must be 1''"])
          (simp_all add: parseLookup7_unfold bindP_def h1 check_argument_def throwP_def
            extensionTarget_def)
    next
      case True
      obtain r2 where r2: "parseUShort p2 = Some r2" using parseUShort_total by blast
      show thesis
      proof (cases r2)
        case (Inl e)
        with r2 True show thesis
          by (intro throws [of e])
            (simp_all add: parseLookup7_unfold bindP_def h1 check_argument_def returnP_def
              extensionTarget_def)
      next
        case (Inr b)
        obtain t p3 where b: "b = (t, p3)" by (cases b)
        with r2 Inr have h2: "parseUShort p2 = Some (Inr (t, p3))" by simp
        obtain r3 where r3: "parseULong p3 = Some r3" using parseULong_total by blast
        show thesis
        proof (cases r3)
          case (Inl e)
          with r3 True show thesis
            by (intro throws [of e])
              (simp_all add: parseLookup7_unfold bindP_def h1 h2 check_argument_def returnP_def
                extensionTarget_def)
        next
          case (Inr c)
          obtain u this where c: "c = (u, this)" by (cases c)
          with r3 Inr have h3: "parseULong p3 = Some (Inr (u, this))" by simp
          show thesis
            using True
            by (intro calls [of p2 t p3 u this])
              (simp_all add: h1 h2 h3 parseLookup7_unfold [of p] bindP_def [of parseUShort]
                bindP_def [of parseULong] bindP_def [of "check_argument True _"]
                check_argument_def returnP_def extensionTarget_def)
        qed
      qed
    qed
  qed
qed

lemma returnsOn_callOn:
  "\<exists>r. f q = Some r \<Longrightarrow> \<exists>r. bindP (callOn f q) (\<lambda>v. returnP (g v)) p = Some r"
  by (auto simp: bindP_def callOn_def returnP_def split: option.splits sum.splits)

text \<open>The extension routine returns when the chain of extensions ends.\<close>

lemma chainEnds_parseLookup7_returns:
  "chainEnds n p \<Longrightarrow> \<exists>r. parseLookup7 p = Some r"
proof (induction n arbitrary: p)
  case 0
  show ?case
  proof (cases p rule: parseLookup7_cases)
    case (throws e)
    then show ?thesis by simp
  next
    case (calls p2 t p3 u this)
    with 0 have "t \<noteq> 7" by (simp split: if_splits)
    then have "\<exists>r. callSlot (subtableParsers t) (Parser (data this) (offset this + u)) = Some r"
      using returnsOn_at [OF returnsOn_otherParsers] by (simp add: subtableParsers_def callSlot_def)
    then show ?thesis
      unfolding calls(4) by (rule returnsOn_callOn)
  qed
next
  case (Suc n)
  show ?case
  proof (cases p rule: parseLookup7_cases)
    case (throws e)
    then show ?thesis by simp
  next
    case (calls p2 t p3 u this)
    have "\<exists>r. callSlot (subtableParsers t) (Parser (data this) (offset this + u)) = Some r"
    proof (cases "t = 7")
      case True
      with calls(5) Suc.prems have "chainEnds n (Parser (data this) (offset this + u))" by simp
      from Suc.IH [OF this] True show ?thesis by (simp add: subtableParsers_def callSlot_def)
    next
      case False
      then show ?thesis
        using returnsOn_at [OF returnsOn_otherParsers] by (simp add: subtableParsers_def callSlot_def)
    qed
    then show ?thesis
      unfolding calls(4) by (rule returnsOn_callOn)
  qed
qed

lemma parseLookup7_returns_chainEnds:
  assumes "parseLookup7 x = Some y"
  shows "\<exists>n. chainEnds n x"
proof (rule parseLookup7.raw_induct [where P = "\<lambda>x y. \<exists>n. chainEnds n x", OF _ assms])
  fix f :: "parser \<Rightarrow> (error + subtable \<times> parser) option" and x y
  assume IH: "\<And>x y. f x = Some y \<Longrightarrow> \<exists>n. chainEnds n x"
  assume body: "(case parseUShort x of
        None \<Rightarrow> None
      | Some (Inl e) \<Rightarrow> Some (Inl e)
      | Some (Inr (substFormat, p1)) \<Rightarrow>
     (case check_argument (substFormat = 1)
             ''GSUB Extension Substitution subtable identifier-format must be 1'' p1 of
        None \<Rightarrow> None
      | Some (Inl e) \<Rightarrow> Some (Inl e)
      | Some (Inr (u, p2)) \<Rightarrow>
     (case parseUShort p2 of
        None \<Rightarrow> None
      | Some (Inl e) \<Rightarrow> Some (Inl e)
      | Some (Inr (extensionLookupType, p3)) \<Rightarrow>
     (case parseULong p3 of
        None \<Rightarrow> None
      | Some (Inl e) \<Rightarrow> Some (Inl e)
      | Some (Inr (extensionOffset, this)) \<Rightarrow>
     (let extensionParser = Parser (data this) (offset this + extensionOffset) in
      Option.bind
        (if extensionLookupType = 7 then f extensionParser
         else callSlot (otherParsers extensionLookupType) extensionParser)
        (\<lambda>r. case r of
               Inl e \<Rightarrow> Some (Inl e)
             | Inr (extension, q) \<Rightarrow>
                 Some (Inr (ExtensionSubst 1 extensionLookupType extension, this)))))))) = Some y"
  show "\<exists>n. chainEnds n x"
  proof (cases "extensionTarget x")
    case None
    then have "chainEnds 0 x" by simp
    then show ?thesis by blast
  next
    case (Some q)
    then obtain p2 p3 u this where
      h: "parseUShort x = Some (Inr (1, p2))" "parseUShort p2 = Some (Inr (7, p3))"
        "parseULong p3 = Some (Inr (u, this))" "q = Parser (data this) (offset this + u)"
      by (auto simp: extensionTarget_def split: option.splits sum.splits prod.splits if_splits)
    from body obtain r where "f q = Some r"
      by (cases "f q") (simp_all add: h check_argument_def returnP_def)
    from IH [OF this] obtain n where "chainEnds n q" ..
    with Some have "chainEnds (Suc n) x" by simp
    then show ?thesis ..
  qed
qed

lemma chain_cycle: "extensionTarget p = Some p \<Longrightarrow> \<not> chainEnds n p"
  by (induction n) simp_all

lemma returnsOn_parseLookupTable:
  assumes "\<And>t off. \<exists>r. callSlot (tbl t) (Parser d off) = Some r"
  shows "returnsOn d (parseLookupTable tbl)"
  unfolding parseLookupTable_def
  by (intro returns_intros assms) (auto intro!: returns_intros)

lemma returnsOn_parseLookupList:
  assumes "\<And>t off. \<exists>r. callSlot (tbl t) (Parser d off) = Some r"
  shows "returnsOn d (parseLookupList tbl)"
  unfolding parseLookupList_def
  by (intro returns_intros returnsOn_parseLookupTable assms) simp

lemma onlyReads_parseLookupList [simp]: "onlyReads (parseLookupList tbl)"
  by (simp add: parseLookupList_def)

lemma all_less_numeral:
  "(\<forall>i < numeral k. P i) = (P (pred_numeral k) \<and> (\<forall>i < pred_numeral k. P i))"
  by (simp add: numeral_eq_Suc All_less_Suc)

lemma returnsOn_subtableParsers:
  assumes "\<forall>off. \<exists>n. chainEnds n (Parser d off)"
  shows "\<exists>r. callSlot (subtableParsers t) (Parser d off) = Some r"
proof (cases "t = 7")
  case True
  from assms obtain n where "chainEnds n (Parser d off)" by blast
  from chainEnds_parseLookup7_returns [OF this] True show ?thesis
    by (simp add: subtableParsers_def callSlot_def)
next
  case False
  then show ?thesis
    using returnsOn_at [OF returnsOn_otherParsers] by (simp add: subtableParsers_def callSlot_def)
qed


lemma chainedTable_chains: "\<forall>off<44. chainEnds 1 (Parser chainedTable off)"
  apply (simp only: all_less_numeral pred_numeral_simps BitM.simps)
  apply (simp add: chainedTable_def extensionTarget_def parseUShort_def parseULong_def
      getUint16_def getUint32_def Parser_def advance_def)
  done

lemmas read_defs =
  bindP_def returnP_def throwP_def callOn_def check_argument_def check_assert_def
  getUint16_def getUint32_def getInt16_def advance_def parseUShort_def parseShort_def
  parseULong_def countOrRead_def parseList_def parseUShortList_def parseOffset16List_def
  parseRecordList_def parsePointer_def Parser_def

lemma chainedTable_single: "parseLookup1 (Parser chainedTable 38) = Some (Inr (SingleSubst1 1 None 5, advance 6 (Parser chainedTable 38)))"
  by (simp add: parseLookup1_def Let_def read_defs chainedTable_def)

lemma chainedTable_inner: "parseLookup7 (Parser chainedTable 30)
   = Some (Inr (ExtensionSubst 1 1 (SingleSubst1 1 None 5), advance 8 (Parser chainedTable 30)))"
  by (subst parseLookup7.simps)
    (simp add: read_defs chainedTable_def otherParsers_def callSlot_def chainedTable_single [unfolded Parser_def chainedTable_def advance_def, simplified])

lemma chainedTable_outer: "parseLookup7 (Parser chainedTable 22)
   = Some (Inr (ExtensionSubst 1 7 (ExtensionSubst 1 1 (SingleSubst1 1 None 5)), advance 8 (Parser chainedTable 22)))"
  by (subst parseLookup7.simps)
    (simp add: read_defs chainedTable_def chainedTable_inner [unfolded Parser_def chainedTable_def advance_def, simplified])

lemma chainedTable_decoded: "parseGsubTable (bindP parseULong (\<lambda>v. returnP (of_nat v / 65536))) parseUShort parseUShort chainedTable None
  = Some (Inr (Table 1 0 0 (Some [Some (Lookup 7 0
       [Some (ExtensionSubst 1 7 (ExtensionSubst 1 1 (SingleSubst1 1 None 5)))] None)])))"
  by (simp add: parseGsubTable_def parseLookupList_def parseLookupTable_def subtableParsers_def
      callSlot_def read_defs chainedTable_def chainedTable_outer [unfolded Parser_def chainedTable_def advance_def, simplified])


lemma cyclicTable_subtable: "parseLookup7 (Parser cyclicTable 22) = None"
proof -
  have t: "extensionTarget (Parser cyclicTable 22) = Some (Parser cyclicTable 22)"
    by (simp add: extensionTarget_def parseUShort_def parseULong_def getUint16_def
        getUint32_def Parser_def advance_def cyclicTable_def)
  show ?thesis
    using parseLookup7_returns_chainEnds [of "Parser cyclicTable 22"] chain_cycle [OF t]
    by (cases "parseLookup7 (Parser cyclicTable 22)") auto
qed

lemma cyclicTable_decode:
  "parseGsubTable (bindP parseULong (\<lambda>v. returnP (of_nat v / 65536))) parseUShort parseUShort
     cyclicTable None = None"
  by (simp add: parseGsubTable_def parseLookupList_def parseLookupTable_def subtableParsers_def
      callSlot_def read_defs cyclicTable_def
      cyclicTable_subtable [unfolded Parser_def cyclicTable_def, simplified])


subsection \<open>What a list read returns\<close>

lemma repeatP_numeral:
  "repeatP (numeral k) item =
     bindP item (\<lambda>x. bindP (repeatP (pred_numeral k) item) (\<lambda>xs. returnP (x # xs)))"
  by (simp add: numeral_eq_Suc)

lemma repeatP_length:
  "repeatP n item p = Some (Inr (xs, p')) \<Longrightarrow> length xs = n"
proof (induction n arbitrary: p xs)
  case 0
  then show ?case by (simp add: returnP_def)
next
  case (Suc n)
  then show ?case by (auto simp: bindP_Inr_iff returnP_def)
qed

lemma parseList_length:
  "parseList (Some c) item p = Some (Inr (xs, p')) \<Longrightarrow> 0 \<le> c \<and> int (length xs) = c"
  by (auto simp: parseList_def countOrRead_def bindP_Inr_iff returnP_def throwP_def
      dest!: repeatP_length split: if_splits)

lemma repeatP_parseUShort:
  "repeatP n parseUShort p = Some (Inr (xs, p')) \<Longrightarrow>
     p' = advance (2 * n) p \<and>
     (\<forall>i<n. getUint16 (data p) (offset p + relativeOffset p + 2 * i) = Some (xs ! i))"
proof (induction n arbitrary: p xs)
  case 0
  then show ?case by (simp add: returnP_def advance_def)
next
  case (Suc n)
  from Suc.prems obtain x ys where
    x: "getUint16 (data p) (offset p + relativeOffset p) = Some x"
    and r: "repeatP n parseUShort (advance 2 p) = Some (Inr (ys, p'))" and xs: "xs = x # ys"
    by (auto simp: bindP_Inr_iff returnP_def parseUShort_Inr)
  from Suc.IH [OF r] have p': "p' = advance (2 * n) (advance 2 p)"
    and ys: "\<forall>i<n. getUint16 (data p) (offset p + relativeOffset p + 2 + 2 * i) = Some (ys ! i)"
    by (simp_all add: advance_def add.assoc)
  have "getUint16 (data p) (offset p + relativeOffset p + 2 * i) = Some (xs ! i)" if "i < Suc n" for i
  proof (cases i)
    case 0
    with x xs show ?thesis by simp
  next
    case (Suc j)
    with that ys xs show ?thesis by (simp add: add.assoc)
  qed
  with p' show ?case by (simp add: advance_def)
qed

lemma itemsAt_elements:
  assumes "onlyReads item"
  shows "itemsAt item start ss p = Some (Inr (xs, p')) \<Longrightarrow> x \<in> set xs \<Longrightarrow>
     \<exists>q q'. data q = data p \<and> offset q = offset p \<and> item q = Some (Inr (x, q'))"
proof (induction ss arbitrary: p xs)
  case Nil
  then show ?case by (simp add: returnP_def)
next
  case (Cons s ss)
  from Cons.prems(1) obtain y q1 ys where
    y: "item (p\<lparr>relativeOffset := start + s\<rparr>) = Some (Inr (y, q1))"
    and r: "itemsAt item start ss q1 = Some (Inr (ys, p'))" and xs: "xs = y # ys"
    by (auto simp: bindP_Inr_iff returnP_def)
  from onlyReadsD [OF assms y] have q1: "data q1 = data p" "offset q1 = offset p" by simp_all
  show ?case
  proof (cases "x = y")
    case True
    with y show ?thesis
      by (intro exI [of _ "p\<lparr>relativeOffset := start + s\<rparr>"] exI [of _ q1]) simp
  next
    case False
    with Cons.prems(2) xs have "x \<in> set ys" by simp
    from Cons.IH [OF r this] q1 show ?thesis by simp
  qed
qed

lemma listsAt_elements:
  assumes "\<And>start. onlyReads (sub start)"
  shows "listsAt sub offsets p = Some (Inr (l, p')) \<Longrightarrow> Some x \<in> set l \<Longrightarrow>
     \<exists>start q q'. data q = data p \<and> offset q = offset p \<and> sub start q = Some (Inr (x, q'))"
proof (induction offsets arbitrary: p l)
  case Nil
  then show ?case by (simp add: returnP_def)
next
  case (Cons start rest)
  show ?case
  proof (cases "start = 0")
    case True
    with Cons.prems(1) obtain l' where
      r: "listsAt sub rest p = Some (Inr (l', p'))" and l: "l = None # l'"
      by (auto simp: bindP_Inr_iff returnP_def)
    with Cons.prems(2) have "Some x \<in> set l'" by simp
    from Cons.IH [OF r this] show ?thesis .
  next
    case False
    with Cons.prems(1) obtain y q1 l' where
      y: "sub start (p\<lparr>relativeOffset := start\<rparr>) = Some (Inr (y, q1))"
      and r: "listsAt sub rest q1 = Some (Inr (l', p'))" and l: "l = Some y # l'"
      by (auto simp: bindP_Inr_iff returnP_def)
    from onlyReadsD [OF assms y] have q1: "data q1 = data p" "offset q1 = offset p" by simp_all
    show ?thesis
    proof (cases "x = y")
      case True
      with y show ?thesis
        by (intro exI [of _ start] exI [of _ "p\<lparr>relativeOffset := start\<rparr>"] exI [of _ q1]) simp
    next
      case False
      with Cons.prems(2) l have "Some x \<in> set l'" by simp
      from Cons.IH [OF r this] q1 show ?thesis by simp
    qed
  qed
qed

lemma parseListOfListsOf_elements:
  assumes "onlyReads item"
    and "parseListOfListsOf item p = Some (Inr (l, p'))"
    and "Some xs \<in> set l" and "x \<in> set xs"
  shows "\<exists>q q'. data q = data p \<and> offset q = offset p \<and> item q = Some (Inr (x, q'))"
proof -
  from assms(2) obtain offsets p1 p2 where
    o: "parseOffset16List p = Some (Inr (offsets, p1))"
    and r: "listsAt (subListAt item) offsets p1 = Some (Inr (l, p2))"
    by (auto simp: parseListOfListsOf_def listOfListsBy_def bindP_Inr_iff returnP_def)
  from onlyReadsD [OF onlyReads_parseOffset16List o]
  have p1: "data p1 = data p" "offset p1 = offset p" by simp_all
  from listsAt_elements [OF onlyReads_subListAt [OF assms(1)] r assms(3)]
  obtain start q q' where q: "data q = data p1" "offset q = offset p1"
    and s: "subListAt item start q = Some (Inr (xs, q'))" by blast
  from s obtain subOffsets q1 where
    so: "parseOffset16List q = Some (Inr (subOffsets, q1))"
    and i: "itemsAt item start subOffsets q1 = Some (Inr (xs, q'))"
    by (auto simp: subListAt_def bindP_Inr_iff)
  from onlyReadsD [OF onlyReads_parseOffset16List so]
  have q1: "data q1 = data q" "offset q1 = offset q" by simp_all
  from itemsAt_elements [OF assms(1) i assms(4)] q1 q p1 show ?thesis by simp
qed

text \<open>
  C6. In a decoded type 4 subtable every ligature rule was read by the item routine at some
  cursor of the same parser: the ligature glyph id, then the count \<open>glyphCount\<close>, then
  exactly \<open>glyphCount - 1\<close> component glyph ids, which are the 16-bit numbers that follow
  the count. The list of components has length \<open>glyphCount - 1\<close>.
\<close>

theorem ligature_components_count:
  assumes "parseLookup4 p = Some (Inr (LigatureSubst substFormat coverage ligatureSets, p'))"
    and "Some rules \<in> set ligatureSets" and "r \<in> set rules"
  shows "\<exists>q q1 glyphCount q2.
           data q = data p \<and> offset q = offset p
         \<and> parseUShort q = Some (Inr (ligGlyph r, q1))
         \<and> parseUShort q1 = Some (Inr (glyphCount, q2))
         \<and> parseUShortList (Some (int glyphCount - 1)) q2
             = Some (Inr (components r, advance (2 * length (components r)) q2))
         \<and> int (length (components r)) = int glyphCount - 1
         \<and> (\<forall>i < length (components r).
               getUint16 (data q) (offset q + relativeOffset q + 4 + 2 * i)
                 = Some (components r ! i))"
proof -
  from assms(1) obtain p1 p2 p3 where
    "parsePointer parseCoverage p2 = Some (Inr (coverage, p3))"
    and f: "parseUShort p = Some (Inr (substFormat, p1))"
    and c: "check_argument (substFormat = 1) ''GSUB ligature table identifier-format must be 1'' p1
              = Some (Inr ((), p2))"
    and l: "parseListOfListsOf parseLookup4_item p3 = Some (Inr (ligatureSets, p'))"
    by (auto simp: parseLookup4_def bindP_Inr_iff returnP_def)
  then have p3: "data p3 = data p" "offset p3 = offset p"
    by (auto simp: parseUShort_Inr check_argument_def returnP_def throwP_def advance_def
        dest!: parsePointer_state split: if_splits)
  from parseListOfListsOf_elements [OF onlyReads_parseLookup4_item l assms(2,3)] p3
  obtain q q' where q: "data q = data p" "offset q = offset p"
    and i: "parseLookup4_item q = Some (Inr (r, q'))" by auto
  from i obtain g q1 glyphCount q2 cs where
    g1: "parseUShort q = Some (Inr (g, q1))" and g2: "parseUShort q1 = Some (Inr (glyphCount, q2))"
    and cs: "parseUShortList (Some (int glyphCount - 1)) q2 = Some (Inr (cs, q'))"
    and r: "r = Ligature g cs"
    by (auto simp: parseLookup4_item_def bindP_Inr_iff returnP_def)
  from cs have len: "0 \<le> int glyphCount - 1" "int (length cs) = int glyphCount - 1"
    using parseList_length [of "int glyphCount - 1" parseUShort q2 cs q']
    by (simp_all add: parseUShortList_def)
  from len have "nat (int glyphCount - 1) = length cs" by linarith
  with cs len have rep: "repeatP (length cs) parseUShort q2 = Some (Inr (cs, q'))"
    by (auto simp: parseUShortList_def parseList_def countOrRead_def bindP_Inr_iff returnP_def
        throwP_def nat_eq_iff split: if_splits)
  from repeatP_parseUShort [OF rep] have q': "q' = advance (2 * length cs) q2"
    and el: "\<forall>i<length cs. getUint16 (data q2) (offset q2 + relativeOffset q2 + 2 * i) = Some (cs ! i)"
    by simp_all
  from g1 g2 have q2: "data q2 = data q" "offset q2 + relativeOffset q2 = offset q + relativeOffset q + 4"
    by (simp_all add: parseUShort_Inr advance_def)
  have "parseUShort q = Some (Inr (ligGlyph r, q1))" using g1 r by simp
  moreover have "parseUShortList (Some (int glyphCount - 1)) q2
             = Some (Inr (components r, advance (2 * length (components r)) q2))"
    using cs r q' by simp
  moreover have "int (length (components r)) = int glyphCount - 1" using len r by simp
  moreover have "\<forall>i < length (components r).
               getUint16 (data q) (offset q + relativeOffset q + 4 + 2 * i)
                 = Some (components r ! i)"
    using el q2 r by simp
  ultimately show ?thesis using q g2 by blast
qed

theorem ligature_components_count_witness:
  "parseLookup4 (Parser [0, 1, 0, 0, 0, 1, 0, 8, 0, 1, 0, 4, 0, 100, 0, 3, 0, 10, 0, 11] 0)
     = Some (Inr (LigatureSubst 1 None [Some [Ligature 100 [10, 11]]],
          advance 8 (Parser [0, 1, 0, 0, 0, 1, 0, 8, 0, 1, 0, 4, 0, 100, 0, 3, 0, 10, 0, 11] 0)))
   \<and> Some [Ligature 100 [10, 11]] \<in> set [Some [Ligature 100 [10, 11]]]
   \<and> Ligature 100 [10, 11] \<in> set [Ligature 100 [10, 11]]
   \<and> (\<exists>q q1 glyphCount q2.
           parseUShort q = Some (Inr (100, q1))
         \<and> parseUShort q1 = Some (Inr (glyphCount, q2))
         \<and> parseUShortList (Some (int glyphCount - 1)) q2 = Some (Inr ([10, 11], advance 4 q2))
         \<and> int (length [10 :: nat, 11]) = int glyphCount - 1)"
proof -
  have a: "parseLookup4 (Parser [0, 1, 0, 0, 0, 1, 0, 8, 0, 1, 0, 4, 0, 100, 0, 3, 0, 10, 0, 11] 0)
     = Some (Inr (LigatureSubst 1 None [Some [Ligature 100 [10, 11]]],
          advance 8 (Parser [0, 1, 0, 0, 0, 1, 0, 8, 0, 1, 0, 4, 0, 100, 0, 3, 0, 10, 0, 11] 0)))"
    by (simp add: parseLookup4_def parseLookup4_item_def parseListOfListsOf_def
        listOfListsBy_def subListAt_def repeatP_numeral read_defs)
  have b: "Some [Ligature 100 [10, 11]] \<in> set [Some [Ligature 100 [10, 11]]]" by simp
  have c: "Ligature 100 [10, 11] \<in> set [Ligature 100 [10, 11]]" by simp
  show ?thesis
    using ligature_components_count [OF a b c] a by auto
qed

subsection \<open>An extension of type 1 and the subtable it wraps\<close>

lemma getUint16_view: "getUint16 d (b + r) = getUint16 (drop b d) r"
  by (auto simp: getUint16_def add.assoc)

lemma getUint32_view: "getUint32 d (b + r) = getUint32 (drop b d) r"
  by (auto simp: getUint32_def add.assoc)

lemma sameView_reads:
  assumes "sameView p q"
  shows "getUint16 (data p) (offset p + relativeOffset p) = getUint16 (data q) (offset q + relativeOffset q)"
    and "getUint32 (data p) (offset p + relativeOffset p) = getUint32 (data q) (offset q + relativeOffset q)"
    and "sameView (advance n p) (advance n q)"
  using assms by (simp_all add: sameView_def getUint16_view getUint32_view advance_def)

lemma sameView_Parser:
  "sameView p q \<Longrightarrow> sameView (Parser (data p) (offset p + n)) (Parser (data q) (offset q + n))"
proof -
  assume "sameView p q"
  then have "drop n (drop (offset p) (data p)) = drop n (drop (offset q) (data q))"
    by (simp add: sameView_def)
  then show ?thesis by (simp add: sameView_def Parser_def add.commute)
qed

lemma sameResultsI: "(\<And>p q. sameView p q \<Longrightarrow> agree (f p) (g q)) \<Longrightarrow> sameResults f g"
  by (simp add: sameResults_def)

lemma sameResultsD: "sameResults f g \<Longrightarrow> sameView p q \<Longrightarrow> agree (f p) (g q)"
  by (simp add: sameResults_def)

lemma sameResults_returnP [simp]: "sameResults (returnP v) (returnP v)"
  by (simp add: sameResults_def agree_def returnP_def)

lemma sameResults_throwP [simp]: "sameResults (throwP e) (throwP e')"
  by (simp add: sameResults_def agree_def throwP_def)

lemma sameResults_bindP:
  assumes "sameResults m m'" and "\<And>x. sameResults (k x) (k' x)"
  shows "sameResults (bindP m k) (bindP m' k')"
proof (rule sameResultsI)
  fix p q assume "sameView p q"
  from sameResultsD [OF assms(1) this] have a: "agree (m p) (m' q)" .
  show "agree (bindP m k p) (bindP m' k' q)"
  proof (cases "m p")
    case None
    with a show ?thesis by (simp add: agree_def bindP_def)
  next
    case (Some r)
    show ?thesis
    proof (cases r)
      case (Inl e)
      with a Some show ?thesis by (auto simp: agree_def bindP_def)
    next
      case (Inr xp)
      obtain x p1 where "xp = (x, p1)" by (cases xp)
      with a Some Inr obtain q1 where m: "m p = Some (Inr (x, p1))"
        and m': "m' q = Some (Inr (x, q1))" and v: "sameView p1 q1"
        by (auto simp: agree_def)
      from sameResultsD [OF assms(2) v, of x] show ?thesis
        by (simp add: bindP_def m m')
    qed
  qed
qed

lemma sameResults_parseUShort [simp]: "sameResults parseUShort parseUShort"
  by (rule sameResultsI)
    (auto simp: agree_def parseUShort_def sameView_reads split: option.splits)

lemma sameResults_parseULong [simp]: "sameResults parseULong parseULong"
  by (rule sameResultsI)
    (auto simp: agree_def parseULong_def sameView_reads split: option.splits)

lemma sameResults_check_argument [simp]: "sameResults (check_argument b m) (check_argument b m')"
  by (simp add: check_argument_def)

lemma sameResults_check_assert [simp]: "sameResults (check_assert b m) (check_assert b m')"
  by (simp add: check_assert_def)

lemma sameResults_repeatP: "sameResults item item \<Longrightarrow> sameResults (repeatP n item) (repeatP n item)"
  by (induction n) (simp_all add: sameResults_bindP)

lemma sameResults_countOrRead [simp]: "sameResults (countOrRead c) (countOrRead c)"
  by (cases c) (simp_all add: countOrRead_def sameResults_bindP)

lemma sameResults_parseList:
  "sameResults item item \<Longrightarrow> sameResults (parseList c item) (parseList c item)"
  by (simp add: parseList_def sameResults_bindP sameResults_repeatP)

lemma sameResults_parseUShortList [simp]: "sameResults (parseUShortList c) (parseUShortList c)"
  by (simp add: parseUShortList_def sameResults_parseList)

lemma sameResults_parseOffset16List [simp]: "sameResults parseOffset16List parseOffset16List"
  by (simp add: parseOffset16List_def)

lemma sameResults_parseRecordList:
  "sameResults item item \<Longrightarrow> sameResults (parseRecordList c item) (parseRecordList c item)"
  by (simp add: parseRecordList_def sameResults_parseList)

lemma sameResults_parsePointer:
  assumes "sameResults f f"
  shows "sameResults (parsePointer f) (parsePointer f)"
proof (rule sameResultsI)
  fix p q assume v: "sameView p q"
  have k: "sameResults
      (\<lambda>p. if 0 < so
           then bindP (callOn f (Parser (data p) (offset p + so))) (\<lambda>v. returnP (Some v)) p
           else returnP None p)
      (\<lambda>p. if 0 < so
           then bindP (callOn f (Parser (data p) (offset p + so))) (\<lambda>v. returnP (Some v)) p
           else returnP None p)" for so
  proof (rule sameResultsI)
    fix p q assume v: "sameView p q"
    have "agree (callOn f (Parser (data p) (offset p + so)) p)
            (callOn f (Parser (data q) (offset q + so)) q)"
      using sameResultsD [OF assms sameView_Parser [OF v, of so]] v
      by (auto simp: agree_def callOn_def split: option.splits sum.splits)
    then have "agree (bindP (callOn f (Parser (data p) (offset p + so))) (\<lambda>v. returnP (Some v)) p)
            (bindP (callOn f (Parser (data q) (offset q + so))) (\<lambda>v. returnP (Some v)) q)"
      by (auto simp: agree_def bindP_def returnP_def split: option.splits sum.splits)
    moreover have "agree (returnP None p) (returnP None q)"
      using v by (simp add: agree_def returnP_def)
    ultimately show "agree (if 0 < so
           then bindP (callOn f (Parser (data p) (offset p + so))) (\<lambda>v. returnP (Some v)) p
           else returnP None p) (if 0 < so
           then bindP (callOn f (Parser (data q) (offset q + so))) (\<lambda>v. returnP (Some v)) q
           else returnP None q)" by (cases "0 < so") simp_all
  qed
  have "sameResults (parsePointer f) (parsePointer f)"
    unfolding parsePointer_def by (intro sameResults_bindP k) simp
  from sameResultsD [OF this v] show "agree (parsePointer f p) (parsePointer f q)" .
qed

lemma sameResults_coverageRangeDesc [simp]: "sameResults coverageRangeDesc coverageRangeDesc"
  unfolding coverageRangeDesc_def by (intro sameResults_bindP) simp_all

lemma sameResults_parseCoverage [simp]: "sameResults parseCoverage parseCoverage"
proof (rule sameResultsI)
  fix p q assume v: "sameView p q"
  have "sameResults
     (bindP parseUShort (\<lambda>format.
        if format = 1 then
          bindP (parseUShortList None) (\<lambda>glyphs. returnP (CoverageFormat1 glyphs))
        else if format = 2 then
          bindP (parseRecordList None coverageRangeDesc) (\<lambda>ranges. returnP (CoverageFormat2 ranges))
        else throwP (Error (''0x'' @ toString16 s @ '': Coverage format must be 1 or 2.''))))
     (bindP parseUShort (\<lambda>format.
        if format = 1 then
          bindP (parseUShortList None) (\<lambda>glyphs. returnP (CoverageFormat1 glyphs))
        else if format = 2 then
          bindP (parseRecordList None coverageRangeDesc) (\<lambda>ranges. returnP (CoverageFormat2 ranges))
        else throwP (Error (''0x'' @ toString16 s' @ '': Coverage format must be 1 or 2.''))))"
    for s s'
    by (intro sameResults_bindP)
      (auto intro!: sameResults_bindP sameResults_parseRecordList)
  from sameResultsD [OF this v] show "agree (parseCoverage p) (parseCoverage q)"
    by (simp add: parseCoverage_def Let_def)
qed

lemma sameResults_parseLookup1 [simp]: "sameResults parseLookup1 parseLookup1"
proof (rule sameResultsI)
  fix p q assume v: "sameView p q"
  have "sameResults
     (bindP parseUShort (\<lambda>substFormat.
        if substFormat = 1 then
          bindP (parsePointer parseCoverage) (\<lambda>coverage.
          bindP parseUShort (\<lambda>deltaGlyphId.
          returnP (SingleSubst1 1 coverage deltaGlyphId)))
        else if substFormat = 2 then
          bindP (parsePointer parseCoverage) (\<lambda>coverage.
          bindP parseOffset16List (\<lambda>substitute.
          returnP (SingleSubst2 2 coverage substitute)))
        else
          bindP (check_assert False
                  (''0x'' @ toString16 s @ '': lookup type 1 format must be 1 or 2.''))
            (\<lambda>_. returnP Undefined)))
     (bindP parseUShort (\<lambda>substFormat.
        if substFormat = 1 then
          bindP (parsePointer parseCoverage) (\<lambda>coverage.
          bindP parseUShort (\<lambda>deltaGlyphId.
          returnP (SingleSubst1 1 coverage deltaGlyphId)))
        else if substFormat = 2 then
          bindP (parsePointer parseCoverage) (\<lambda>coverage.
          bindP parseOffset16List (\<lambda>substitute.
          returnP (SingleSubst2 2 coverage substitute)))
        else
          bindP (check_assert False
                  (''0x'' @ toString16 s' @ '': lookup type 1 format must be 1 or 2.''))
            (\<lambda>_. returnP Undefined)))"
    for s s'
    by (intro sameResults_bindP)
      (auto intro!: sameResults_bindP sameResults_parsePointer)
  from sameResultsD [OF this v] show "agree (parseLookup1 p) (parseLookup1 q)"
    by (simp add: parseLookup1_def Let_def)
qed

text \<open>
  C4. Take an extension subtable of format 1 whose extensionLookupType is 1, and a
  standalone type 1 subtable at offset \<open>off'\<close> of a buffer \<open>dat'\<close> whose bytes are those
  of the extension's payload, the bytes from \<open>offset p + extensionOffset\<close> on. When the
  standalone subtable decodes to \<open>sub\<close>, the extension decodes to the record with
  substFormat 1, lookupType 1 and extension \<open>sub\<close>; and when the extension decodes, its
  extension field is what the standalone subtable decodes to.
\<close>

theorem extension_of_type1_equals_standalone:
  assumes "parseUShort p = Some (Inr (1, p2))" and "parseUShort p2 = Some (Inr (1, p3))"
    and "parseULong p3 = Some (Inr (extensionOffset, this))"
    and "drop (offset p + extensionOffset) (data p) = drop off' dat'"
  shows "(parseLookup1 (Parser dat' off') = Some (Inr (sub, q)) \<longrightarrow>
            parseLookup7 p = Some (Inr (ExtensionSubst 1 1 sub, this)))
       \<and> (parseLookup7 p = Some (Inr (v, p')) \<longrightarrow>
            (\<exists>sub q. v = ExtensionSubst 1 1 sub
                   \<and> parseLookup1 (Parser dat' off') = Some (Inr (sub, q))))"
proof -
  have base: "data this = data p" "offset this = offset p"
    using assms(1-3) by (auto simp: parseUShort_Inr parseULong_def advance_def split: option.splits)
  have e: "parseLookup7 p =
      bindP (callOn parseLookup1 (Parser (data p) (offset p + extensionOffset)))
        (\<lambda>extension. returnP (ExtensionSubst 1 1 extension)) this"
    by (simp add: parseLookup7_unfold [of p] bindP_def [of parseUShort] bindP_def [of parseULong]
        bindP_def [of "check_argument True _"] assms(1-3) check_argument_def returnP_def
        subtableParsers_def otherParsers_def callSlot_def base)
  have "sameView (Parser (data p) (offset p + extensionOffset)) (Parser dat' off')"
    using assms(4) by (simp add: sameView_def Parser_def)
  from sameResultsD [OF sameResults_parseLookup1 this]
  have a: "agree (parseLookup1 (Parser (data p) (offset p + extensionOffset)))
             (parseLookup1 (Parser dat' off'))" .
  show ?thesis
    using a unfolding e
    by (auto simp: agree_def bindP_def callOn_def returnP_def split: option.splits sum.splits)
qed

theorem extension_of_type1_equals_standalone_witness:
  "parseUShort (Parser [0, 1, 0, 1, 0, 0, 0, 8, 0, 1, 0, 6, 0, 5, 0, 1, 0, 1, 0, 42] 0)
     = Some (Inr (1, advance 2 (Parser [0, 1, 0, 1, 0, 0, 0, 8, 0, 1, 0, 6, 0, 5, 0, 1, 0, 1, 0, 42] 0)))
   \<and> drop (offset (Parser [0, 1, 0, 1, 0, 0, 0, 8, 0, 1, 0, 6, 0, 5, 0, 1, 0, 1, 0, 42] 0) + 8)
        (data (Parser [0, 1, 0, 1, 0, 0, 0, 8, 0, 1, 0, 6, 0, 5, 0, 1, 0, 1, 0, 42] 0))
     = drop 2 [0xAA, 0xBB, 0, 1, 0, 6, 0, 5, 0, 1, 0, 1, 0, 42]
   \<and> parseLookup1 (Parser [0xAA, 0xBB, 0, 1, 0, 6, 0, 5, 0, 1, 0, 1, 0, 42] 2)
     = Some (Inr (SingleSubst1 1 (Some (CoverageFormat1 [42])) 5,
          advance 6 (Parser [0xAA, 0xBB, 0, 1, 0, 6, 0, 5, 0, 1, 0, 1, 0, 42] 2)))
   \<and> parseLookup7 (Parser [0, 1, 0, 1, 0, 0, 0, 8, 0, 1, 0, 6, 0, 5, 0, 1, 0, 1, 0, 42] 0)
     = Some (Inr (ExtensionSubst 1 1 (SingleSubst1 1 (Some (CoverageFormat1 [42])) 5),
          advance 8 (Parser [0, 1, 0, 1, 0, 0, 0, 8, 0, 1, 0, 6, 0, 5, 0, 1, 0, 1, 0, 42] 0)))"
proof -
  let ?p = "Parser [0, 1, 0, 1, 0, 0, 0, 8, 0, 1, 0, 6, 0, 5, 0, 1, 0, 1, 0, 42] 0"
  have h1: "parseUShort ?p = Some (Inr (1, advance 2 ?p))"
    by (simp add: read_defs)
  have h2: "parseUShort (advance 2 ?p) = Some (Inr (1, advance 4 ?p))"
    by (simp add: read_defs)
  have h3: "parseULong (advance 4 ?p) = Some (Inr (8, advance 8 ?p))"
    by (simp add: read_defs)
  have h4: "drop (offset ?p + 8) (data ?p) = drop 2 [0xAA, 0xBB, 0, 1, 0, 6, 0, 5, 0, 1, 0, 1, 0, 42]"
    by (simp add: Parser_def)
  have s: "parseLookup1 (Parser [0xAA, 0xBB, 0, 1, 0, 6, 0, 5, 0, 1, 0, 1, 0, 42] 2)
     = Some (Inr (SingleSubst1 1 (Some (CoverageFormat1 [42])) 5,
          advance 6 (Parser [0xAA, 0xBB, 0, 1, 0, 6, 0, 5, 0, 1, 0, 1, 0, 42] 2)))"
    by (simp add: parseLookup1_def parseCoverage_def Let_def repeatP_numeral read_defs)
  from extension_of_type1_equals_standalone [OF h1 h2 h3 h4,
      of "SingleSubst1 1 (Some (CoverageFormat1 [42])) 5"
         "advance 6 (Parser [0xAA, 0xBB, 0, 1, 0, 6, 0, 5, 0, 1, 0, 1, 0, 42] 2)" Undefined ?p] s
  have "parseLookup7 ?p
     = Some (Inr (ExtensionSubst 1 1 (SingleSubst1 1 (Some (CoverageFormat1 [42])) 5), advance 8 ?p))"
    by blast
  with h1 h4 s show ?thesis by blast
qed

subsection \<open>A table or an error\<close>

lemma parsePointer_value:
  "parsePointer f p = Some (Inr (Some v, p')) \<Longrightarrow> \<exists>q q'. f q = Some (Inr (v, q'))"
  by (auto simp: parsePointer_def bindP_Inr_iff returnP_def callOn_def
      split: if_splits option.splits sum.splits)

lemma repeatP_elements:
  "repeatP n item p = Some (Inr (xs, p')) \<Longrightarrow> x \<in> set xs \<Longrightarrow>
     \<exists>q q'. item q = Some (Inr (x, q'))"
proof (induction n arbitrary: p xs)
  case 0
  then show ?case by (simp add: returnP_def)
next
  case (Suc n)
  from Suc.prems(1) obtain y q1 ys where
    y: "item p = Some (Inr (y, q1))"
    and r: "repeatP n item q1 = Some (Inr (ys, p'))" and xs: "xs = y # ys"
    by (auto simp: bindP_Inr_iff returnP_def)
  show ?case
  proof (cases "x = y")
    case True
    with y show ?thesis by blast
  next
    case False
    with Suc.prems(2) xs have "x \<in> set ys" by simp
    from Suc.IH [OF r this] show ?thesis .
  qed
qed

lemma parseList_elements:
  "parseList c item p = Some (Inr (xs, p')) \<Longrightarrow> x \<in> set xs \<Longrightarrow>
     \<exists>q q'. item q = Some (Inr (x, q'))"
  by (auto simp: parseList_def bindP_Inr_iff throwP_def split: if_splits
      dest: repeatP_elements)

lemma parseLookupTable_subtables:
  assumes "parseLookupTable tbl p = Some (Inr (l, p'))"
    and "(t, st) \<in> set (subtablesOfLookup (Some l))"
  shows "\<exists>q q'. callSlot (tbl t) q = Some (Inr (st, q'))"
proof -
  from assms(1) obtain lookupType lookupFlag subtables m q1 q2 where
    l: "l = Lookup lookupType lookupFlag subtables m"
    and s: "parseList None (parsePointer (callSlot (tbl lookupType))) q1 = Some (Inr (subtables, q2))"
    by (auto simp: parseLookupTable_def bindP_Inr_iff returnP_def)
  from assms(2) l have t: "t = lookupType" and "Some st \<in> set subtables"
    by (auto simp: subtablesOfLookup_def split: option.splits)
  from parseList_elements [OF s this(2)] t show ?thesis
    by (auto dest: parsePointer_value)
qed

lemma parseLookupList_subtables:
  assumes "parseLookupList tbl p = Some (Inr (lookups, p'))"
    and "(t, st) \<in> set (subtablesOf lookups)"
  shows "\<exists>q q'. callSlot (tbl t) q = Some (Inr (st, q'))"
proof -
  from assms(2) obtain ls l where ls: "lookups = Some ls" and l: "l \<in> set ls"
    and m: "(t, st) \<in> set (subtablesOfLookup l)"
    by (auto simp: subtablesOf_def split: option.splits)
  from m obtain lk where lk: "l = Some lk" by (cases l) (auto simp: subtablesOfLookup_def)
  from assms(1) ls obtain q q' where
    "parseList None (parsePointer (parseLookupTable tbl)) q = Some (Inr (ls, q'))"
    by (auto simp: parseLookupList_def dest: parsePointer_value)
  from parseList_elements [OF this l] lk obtain q1 q1' where
    "parseLookupTable tbl q1 = Some (Inr (lk, q1'))"
    by (auto dest: parsePointer_value)
  from parseLookupTable_subtables [OF this] m lk show ?thesis by simp
qed

lemma parseLookup1_not_extension: "parseLookup1 p \<noteq> Some (Inr (ExtensionSubst f t x, q))"
  by (auto simp: parseLookup1_def Let_def bindP_Inr_iff returnP_def check_False throwP_def
      split: if_splits)

lemma parseLookup2_not_extension: "parseLookup2 p \<noteq> Some (Inr (ExtensionSubst f t x, q))"
  by (auto simp: parseLookup2_def bindP_Inr_iff returnP_def)

lemma parseLookup3_not_extension: "parseLookup3 p \<noteq> Some (Inr (ExtensionSubst f t x, q))"
  by (auto simp: parseLookup3_def bindP_Inr_iff returnP_def)

lemma parseLookup4_not_extension: "parseLookup4 p \<noteq> Some (Inr (ExtensionSubst f t x, q))"
  by (auto simp: parseLookup4_def bindP_Inr_iff returnP_def)

lemma parseLookup5_not_extension: "parseLookup5 p \<noteq> Some (Inr (ExtensionSubst f t x, q))"
  by (auto simp: parseLookup5_def Let_def bindP_Inr_iff returnP_def check_False throwP_def
      split: if_splits)

lemma parseLookup6_not_extension: "parseLookup6 p \<noteq> Some (Inr (ExtensionSubst f t x, q))"
  by (auto simp: parseLookup6_def Let_def bindP_Inr_iff returnP_def check_False throwP_def
      split: if_splits)

lemma parseLookup8_not_extension: "parseLookup8 p \<noteq> Some (Inr (ExtensionSubst f t x, q))"
  by (auto simp: parseLookup8_def bindP_Inr_iff returnP_def)

lemmas not_extension =
  parseLookup1_not_extension parseLookup2_not_extension parseLookup3_not_extension
  parseLookup4_not_extension parseLookup5_not_extension parseLookup6_not_extension
  parseLookup8_not_extension

text \<open>What the extension routine returns wraps what the routine it called returned.\<close>

lemma parseLookup7_value:
  assumes "parseLookup7 p = Some (Inr (v, p'))"
  shows "\<exists>t ext. v = ExtensionSubst 1 t ext \<and> decodedBy t ext"
proof (cases p rule: parseLookup7_cases)
  case (throws e)
  with assms show ?thesis by simp
next
  case (calls p2 t p3 u this)
  from assms [unfolded calls(4)] show ?thesis
    by (auto simp: bindP_Inr_iff callOn_def returnP_def decodedBy_def
        split: option.splits sum.splits)
qed

lemma decodedBy_extension:
  assumes "decodedBy t (ExtensionSubst f t' ext)"
  shows "decodedBy t' ext"
proof -
  from assms obtain q q' where
    c: "callSlot (subtableParsers t) q = Some (Inr (ExtensionSubst f t' ext, q'))"
    by (auto simp: decodedBy_def)
  have "t = 7"
    using c by (auto simp: subtableParsers_def otherParsers_def callSlot_def throwP_def
        not_extension split: if_splits)
  with c have "parseLookup7 q = Some (Inr (ExtensionSubst f t' ext, q'))"
    by (simp add: subtableParsers_def callSlot_def)
  from parseLookup7_value [OF this] show ?thesis by simp
qed

lemma decodedBy_wrapped:
  "decodedBy t st \<Longrightarrow> (t', st') \<in> set (wrappedIn st) \<Longrightarrow> decodedBy t' st'"
proof (induction st arbitrary: t)
  case (ExtensionSubst f t0 ext)
  from decodedBy_extension [OF ExtensionSubst.prems(1)] have d: "decodedBy t0 ext" .
  from ExtensionSubst.prems(2) have "(t', st') = (t0, ext) \<or> (t', st') \<in> set (wrappedIn ext)"
    by simp
  then show ?case
    using d ExtensionSubst.IH [OF d] by auto
qed simp_all

lemma parseLookup7_propagates:
  assumes "parseUShort p = Some (Inr (1, p2))" and "parseUShort p2 = Some (Inr (t, p3))"
    and "parseULong p3 = Some (Inr (u, this))"
    and "callSlot (subtableParsers t) (Parser (data this) (offset this + u)) = Some (Inl e)"
  shows "parseLookup7 p = Some (Inl e)"
  by (simp add: parseLookup7_unfold [of p] bindP_def [of parseUShort] bindP_def [of parseULong]
        bindP_def [of "check_argument True _"] bindP_def [of "callOn _ _"] callOn_def
        assms check_argument_def returnP_def)

lemma brokenTable_single:
  "parseLookup1 (Parser brokenTable 38)
     = Some (Inl (Error ''0x26: lookup type 1 format must be 1 or 2.''))"
proof -
  have "toString16 38 = ''26''"
    by (simp add: toString16.simps [of 38] toString16.simps [of 2] hexDigit_def)
  then show ?thesis
    by (simp add: parseLookup1_def Let_def read_defs brokenTable_def)
qed

lemma brokenTable_header:
  "parseUShort (Parser brokenTable 30) = Some (Inr (1, advance 2 (Parser brokenTable 30)))"
  "parseUShort (advance 2 (Parser brokenTable 30)) = Some (Inr (1, advance 4 (Parser brokenTable 30)))"
  "parseULong (advance 4 (Parser brokenTable 30)) = Some (Inr (8, advance 8 (Parser brokenTable 30)))"
  by (simp_all add: read_defs brokenTable_def)

lemma brokenTable_slot:
  "callSlot (subtableParsers 1)
     (Parser (data (advance 8 (Parser brokenTable 30))) (offset (advance 8 (Parser brokenTable 30)) + 8))
     = Some (Inl (Error ''0x26: lookup type 1 format must be 1 or 2.''))"
  using brokenTable_single
  by (simp add: subtableParsers_def otherParsers_def callSlot_def Parser_def advance_def)

lemma brokenTable_inner:
  "parseLookup7 (Parser brokenTable 30)
     = Some (Inl (Error ''0x26: lookup type 1 format must be 1 or 2.''))"
  by (rule parseLookup7_propagates [OF brokenTable_header brokenTable_slot])

lemma brokenTable_outer:
  "parseLookup7 (Parser brokenTable 22)
     = Some (Inl (Error ''0x26: lookup type 1 format must be 1 or 2.''))"
  by (subst parseLookup7.simps)
    (simp add: read_defs brokenTable_def
      brokenTable_inner [unfolded Parser_def brokenTable_def advance_def, simplified])

lemma brokenTable_decoded:
  "parseGsubTable (bindP parseULong (\<lambda>v. returnP (of_nat v / 65536))) parseUShort parseUShort
     brokenTable None
   = Some (Inl (Error ''0x26: lookup type 1 format must be 1 or 2.''))"
  by (simp add: parseGsubTable_def parseLookupList_def parseLookupTable_def subtableParsers_def
      callSlot_def read_defs brokenTable_def
      brokenTable_outer [unfolded Parser_def brokenTable_def advance_def, simplified])



end
